theory Spec2Isabelle
  imports Complex_Main "HOL-Library.Word" "HOL-Library.Signed_Division"
begin

unbundle bit_operations_syntax

section \<open>Template merger (mergeWithTemplate)\<close>

text \<open>
  JavaScript strings are modelled as \<^typ>\<open>string\<close>. \<open>toUpperCase\<close> maps the ASCII
  letters a..z to A..Z and leaves every other character as it is.
\<close>

definition toUpperCase_char :: "char \<Rightarrow> char" where
  "toUpperCase_char c =
     (if (97::nat) \<le> of_char c \<and> of_char c \<le> (122::nat)
      then char_of (of_char c - (32::nat)) else c)"

definition toUpperCase :: "string \<Rightarrow> string" where
  "toUpperCase s = map toUpperCase_char s"

fun startsWith :: "string \<Rightarrow> string \<Rightarrow> bool" where
  "startsWith s [] = True"
| "startsWith [] (n # ns) = False"
| "startsWith (c # cs) (n # ns) = (c = n \<and> startsWith cs ns)"

text \<open>\<open>hay.includes(needle)\<close>: the needle occurs as a contiguous substring.\<close>

fun str_includes :: "string \<Rightarrow> string \<Rightarrow> bool" where
  "str_includes [] needle = (needle = [])"
| "str_includes (c # cs) needle = (startsWith (c # cs) needle \<or> str_includes cs needle)"

text \<open>
  \<open>content.split(/\r?\n/)\<close>: the text is cut at every line feed, and a carriage
  return directly before the line feed belongs to the separator. The first argument
  collects the current line in reverse.
\<close>

fun split_lines :: "string \<Rightarrow> string \<Rightarrow> string list" where
  "split_lines acc [] = [rev acc]"
| "split_lines acc (c # cs) =
     (if c = CHR 0x0D \<and> (case cs of [] \<Rightarrow> False | d # ds \<Rightarrow> d = CHR 0x0A)
      then rev acc # split_lines [] (tl cs)
      else if c = CHR 0x0A then rev acc # split_lines [] cs
      else split_lines (c # acc) cs)"

text \<open>\<open>lines.join("\n")\<close>\<close>

fun join_nl :: "string list \<Rightarrow> string" where
  "join_nl [] = []"
| "join_nl [l] = l"
| "join_nl (l # m # ls) = l @ ''\<newline>'' @ join_nl (m # ls)"

text \<open>
  The marker scan: every line is upper-cased and tested for both markers; a later
  matching line overwrites the index of an earlier one. Indices are \<^typ>\<open>int\<close>
  because the source starts them at \<open>-1\<close>.
\<close>

fun scan_markers :: "string list \<Rightarrow> int \<Rightarrow> int \<times> int \<Rightarrow> int \<times> int" where
  "scan_markers [] i (startIndex, endIndex) = (startIndex, endIndex)"
| "scan_markers (l # ls) i (startIndex, endIndex) =
     (let line = toUpperCase l;
          startIndex' = (if str_includes line '';START_ART'' then i else startIndex);
          endIndex' = (if str_includes line '';END_ART'' then i else endIndex)
      in scan_markers ls (i + 1) (startIndex', endIndex'))"

text \<open>
  \<open>getElement(id)\<close> writes a warning with \<open>console.warn\<close> when the document has
  no element of that name. \<open>el\<close> is the value of the element, \<open>None\<close> when the
  element is missing.
\<close>

definition getElement_warnings :: "string \<Rightarrow> string option \<Rightarrow> string list" where
  "getElement_warnings name el =
     (case el of None \<Rightarrow> [''Element not found: '' @ name] | Some v \<Rightarrow> [])"

text \<open>
  The result of a merge: the lines written by \<open>console.warn\<close> and the returned text.
  \<open>template\<close> is \<open>appState.gcodeTemplateContent\<close> (\<open>None\<close> for \<open>null\<close>); the test
  \<open>!appState.gcodeTemplateContent\<close> is also true of the empty string.
  \<open>modeValue\<close> is \<open>getElement("filamentChangeMode")?.value\<close> (\<open>None\<close> when the
  element is missing, which \<open>getElement\<close> reports); \<open>|| "manual"\<close> replaces a
  missing or empty value. The template tests return before that call.
\<close>

record merge_result =
  warnings :: "string list"
  merged :: string

definition mergeWithTemplate :: "string option \<Rightarrow> string option \<Rightarrow> string \<Rightarrow> merge_result" where
  "mergeWithTemplate template modeValue artGcode =
     (case template of
        None \<Rightarrow> \<lparr>warnings = [], merged = artGcode\<rparr>
      | Some content \<Rightarrow>
          if content = [] then \<lparr>warnings = [], merged = artGcode\<rparr>
          else
            let lines = split_lines [] content;
                (startIndex, endIndex) = scan_markers lines 0 (-1, -1)
            in if startIndex = -1
               then \<lparr>warnings = [''Marker ;START_ART not found in template''],
                     merged = content @ ''\<newline>'' @ artGcode\<rparr>
               else
                 let header = join_nl (take (nat (startIndex + 1)) lines);
                     footer = (if endIndex \<noteq> -1 \<and> endIndex > startIndex
                               then join_nl (drop (nat endIndex) lines)
                               else join_nl (drop (nat (startIndex + 1)) lines));
                     mode = (case modeValue of None \<Rightarrow> ''manual''
                             | Some v \<Rightarrow> if v = [] then ''manual'' else v);
                     changeCommand = (if mode = ''manual''
                                      then ''\<newline>; --- MANUAL PAUSE ---\<newline>M600\<newline>''
                                      else '''');
                     finalGcode = header @ changeCommand @ ''\<newline>; --- START ARTWORK ---\<newline>''
                                  @ artGcode @ ''\<newline>; --- END ARTWORK ---\<newline>''
                   in \<lparr>warnings = getElement_warnings ''filamentChangeMode'' modeValue,
                       merged = finalGcode @ footer\<rparr>)"

section \<open>Space-filling curve (hilbert)\<close>

text \<open>
  JavaScript numbers that hold integers are modelled as \<^typ>\<open>int\<close> (exact below
  \<open>2^53\<close>). The bitwise operators first convert their operands to 32-bit signed
  integers (ToInt32); \<open>a << b\<close> shifts by \<open>b mod 32\<close> and yields a 32-bit signed integer.
\<close>

definition js_ToInt32 :: "int \<Rightarrow> int" where
  "js_ToInt32 v = sint (word_of_int v :: 32 word)"

definition js_shl :: "int \<Rightarrow> nat \<Rightarrow> int" where
  "js_shl a b = sint (push_bit (b mod 32) (word_of_int a :: 32 word))"

definition js_bitand :: "int \<Rightarrow> int \<Rightarrow> int" where
  "js_bitand a b = js_ToInt32 a AND js_ToInt32 b"

definition js_bitxor :: "int \<Rightarrow> int \<Rightarrow> int" where
  "js_bitxor a b = js_ToInt32 a XOR js_ToInt32 b"

text \<open>
  One pass through the body of the \<open>for\<close> loop of \<open>hilbert\<close>, on the loop
  variables \<open>(x, y, t)\<close> at scale \<open>s\<close>. \<open>1 & (t / 2)\<close> truncates the quotient
  towards zero (\<open>sdiv\<close>); \<open>Math.floor(t / 4)\<close> is \<open>t div 4\<close>.
\<close>

definition hilbert_step :: "int \<Rightarrow> int \<times> int \<times> int \<Rightarrow> int \<times> int \<times> int" where
  "hilbert_step s st =
     (case st of (x, y, t) \<Rightarrow>
        let rx = js_bitand 1 (t sdiv 2);
            ry = js_bitand 1 (js_bitxor t rx);
            (x, y) = (if ry = 0
                      then (let (x, y) = (if rx = 1 then (s - 1 - x, s - 1 - y) else (x, y))
                            in (y, x))
                      else (x, y))
        in (x + s * rx, y + s * ry, t div 4))"

text \<open>
  The loop \<open>for (s = 1; s < n; s *= 2)\<close>. Nothing in the loop itself bounds the number
  of passes, so the model is a partial function: \<open>None\<close> stands for a loop that does
  not return.
\<close>

partial_function (option) hilbert_loop :: "int \<Rightarrow> int \<Rightarrow> int \<times> int \<times> int \<Rightarrow> (int \<times> int) option" where
  "hilbert_loop n s st =
     (if s < n then hilbert_loop n (s * 2) (hilbert_step s st)
      else Some (fst st, fst (snd st)))"

definition hilbert :: "nat \<Rightarrow> int \<Rightarrow> (int \<times> int) option" where
  "hilbert order d = hilbert_loop (js_shl 1 order) 1 (0, 0, d)"

definition chebyshev :: "int \<times> int \<Rightarrow> int \<times> int \<Rightarrow> int" where
  "chebyshev p q = max \<bar>fst q - fst p\<bar> \<bar>snd q - snd p\<bar>"

declare hilbert_loop.simps [code]

subsection \<open>The curve by quadrants\<close>

text \<open>
  The proofs describe the curve level by level. \<open>quad s q\<close> is what one pass of the
  loop does to the cell \<open>(x, y)\<close> when the two index bits it reads are the base-4
  digit \<open>q\<close>: it places the curve of the level below into quadrant \<open>q\<close> of the
  square of side \<open>2 * s\<close>.
\<close>

definition quad :: "int \<Rightarrow> int \<Rightarrow> int \<times> int \<Rightarrow> int \<times> int" where
  "quad s q p = (case p of (x, y) \<Rightarrow>
     if q = 0 then (y, x)
     else if q = 1 then (x, y + s)
     else if q = 2 then (x + s, y + s)
     else (2 * s - 1 - y, s - 1 - x))"

text \<open>\<open>hcurve k t\<close>: the cell after \<open>k\<close> passes, from the \<open>k\<close> low digits of \<open>t\<close>.\<close>

fun hcurve :: "nat \<Rightarrow> int \<Rightarrow> int \<times> int" where
  "hcurve 0 t = (0, 0)"
| "hcurve (Suc k) t = quad (2 ^ k) (t div 4 ^ k mod 4) (hcurve k t)"

text \<open>\<open>hilbert_iter k\<close>: the loop variables after the first \<open>k\<close> passes.\<close>

fun hilbert_iter :: "nat \<Rightarrow> int \<times> int \<times> int \<Rightarrow> int \<times> int \<times> int" where
  "hilbert_iter 0 st = st"
| "hilbert_iter (Suc k) st = hilbert_step (2 ^ k) (hilbert_iter k st)"

definition in_square :: "int \<Rightarrow> int \<times> int \<Rightarrow> bool" where
  "in_square n p = (0 \<le> fst p \<and> fst p < n \<and> 0 \<le> snd p \<and> snd p < n)"

definition manhattan :: "int \<times> int \<Rightarrow> int \<times> int \<Rightarrow> int" where
  "manhattan p q = \<bar>fst q - fst p\<bar> + \<bar>snd q - snd p\<bar>"

section \<open>Parameters and state of a generation run (processImageCore)\<close>

text \<open>
  JavaScript numbers that are not integer counters are modelled as \<^typ>\<open>real\<close>:
  rounding errors of the double format, NaN and the infinities are outside the model.
  A division by zero is 0 in HOL and not a number or infinite in JavaScript; the
  theorems assume the divisors positive that the form keeps positive (filament
  diameter, print width and height).

  \<open>env\<close> holds the values \<open>processImageCore\<close> reads from the form, after their
  clamping by \<open>safeParseFloat\<close> and \<open>safeParseInt\<close>; the image as the sampler reads
  it (\<open>pixels\<close> is the RGBA byte array, indexed from 0, \<open>anaW\<close> and \<open>anaH\<close> its
  width and height); and the view transform \<open>appState.imageZoom\<close>,
  \<open>appState.imageOffsetX\<close>, \<open>appState.imageOffsetY\<close>. \<open>innerRadius\<close> is the
  variable of that name as the artwork phase reads it: 0 without a base, the value
  returned by the base generator with one.
\<close>

record env =
  pathType :: string
  filamentDia :: real
  layerHeight :: real
  zOffset :: real
  bedWidth :: real
  bedHeight :: real
  originAtCenter :: bool
  printWidth :: real
  printHeight :: real
  spacing :: real
  minW :: real
  maxW :: real
  mirrorimage :: bool
  minSpeedMMS :: real
  maxSpeedMMS :: real
  squiggleAmp :: real
  squiggleFreq :: real
  addCircularBase :: bool
  baseMargin :: real
  baseLayers :: nat
  textMode :: bool
  textThreshold :: real
  baseSpeedMMS :: real
  gammaVal :: real
  pixels :: "int \<Rightarrow> real"
  anaW :: int
  anaH :: int
  imageZoom :: real
  imageOffsetX :: real
  imageOffsetY :: real
  innerRadius :: real

definition TWO_PI :: real where
  "TWO_PI = 2 * pi"

definition MAX_LOOP_ITERATIONS :: nat where
  "MAX_LOOP_ITERATIONS = 100000"

definition offsetX :: "env \<Rightarrow> real" where
  "offsetX e = (if originAtCenter e then - printWidth e / 2 else (bedWidth e - printWidth e) / 2)"

definition offsetY :: "env \<Rightarrow> real" where
  "offsetY e = (if originAtCenter e then - printHeight e / 2 else (bedHeight e - printHeight e) / 2)"

definition filArea :: "env \<Rightarrow> real" where
  "filArea e = pi * (filamentDia e / 2) ^ 2"

definition printDim :: "env \<Rightarrow> real" where
  "printDim e = min (printWidth e) (printHeight e)"

definition baseRadius :: "env \<Rightarrow> real" where
  "baseRadius e = printDim e / 2"

definition centerX :: "env \<Rightarrow> real" where
  "centerX e = offsetX e + printWidth e / 2"

definition centerY :: "env \<Rightarrow> real" where
  "centerY e = offsetY e + printHeight e / 2"

definition centerOffset_x :: "env \<Rightarrow> real" where
  "centerOffset_x e = offsetX e + (printWidth e - printDim e) / 2"

definition centerOffset_y :: "env \<Rightarrow> real" where
  "centerOffset_y e = offsetY e + (printHeight e - printDim e) / 2"

definition minSpeed :: "env \<Rightarrow> real" where
  "minSpeed e = minSpeedMMS e * 60"

definition maxSpeed :: "env \<Rightarrow> real" where
  "maxSpeed e = maxSpeedMMS e * 60"

definition useSquiggle :: "env \<Rightarrow> bool" where
  "useSquiggle e = (squiggleAmp e > 0.01)"

definition baseSpeed :: "env \<Rightarrow> real" where
  "baseSpeed e = baseSpeedMMS e * 60"

text \<open>\<open>Math.hypot(a, b)\<close>\<close>

definition hypot :: "real \<Rightarrow> real \<Rightarrow> real" where
  "hypot a b = sqrt (a ^ 2 + b ^ 2)"

text \<open>
  \<open>v.toFixed(f)\<close> prints the decimal numeral with \<open>f\<close> fraction digits nearest to
  \<open>v\<close>, a tie going away from zero. The model keeps the value that the printed numeral
  denotes (values below \<open>10^21\<close>, where \<open>toFixed\<close> prints no exponent).
\<close>

definition toFixed :: "nat \<Rightarrow> real \<Rightarrow> real" where
  "toFixed f v =
     (if v < 0 then - (of_int \<lfloor>- v * 10 ^ f + 1 / 2\<rfloor> / 10 ^ f)
      else of_int \<lfloor>v * 10 ^ f + 1 / 2\<rfloor> / 10 ^ f)"

text \<open>
  The lines pushed onto \<open>gcode\<close>, one constructor for each template. A numeric field
  holds the value of the numeral printed in the line.
  \<^item> \<open>G0 x y f\<close>: \<open>G0 X<x> Y<y> F<f>\<close>
  \<^item> \<open>G1 x y e f\<close>: \<open>G1 X<x> Y<y> E<e> F<f>\<close>
  \<^item> \<open>G0_Z z f\<close>: \<open>G0 Z<z> F<f>\<close>
  \<^item> \<open>G1_Z z f\<close>: \<open>G1 Z<z> F<f>\<close>
  \<^item> \<open>G1_Z_layer z f i n\<close>: \<open>G1 Z<z> F<f> ; Base layer <i>/<n>\<close>
  \<^item> \<open>G1_E a f\<close>: \<open>G1 E<a> F<f>\<close>
  \<^item> \<open>Comment s\<close>: the comment line \<open>s\<close>
\<close>

datatype gline =
    G0 real real real
  | G1 real real real real
  | G0_Z real real
  | G1_Z real real
  | G1_Z_layer real real nat nat
  | G1_E real real
  | Comment string

fun is_print :: "gline \<Rightarrow> bool" where
  "is_print (G1 x y a f) = True"
| "is_print l = False"

fun line_E :: "gline \<Rightarrow> real" where
  "line_E (G1 x y a f) = a"
| "line_E l = 0"

fun line_F :: "gline \<Rightarrow> real" where
  "line_F (G0 x y f) = f"
| "line_F (G1 x y a f) = f"
| "line_F l = 0"

fun line_XY :: "gline \<Rightarrow> real \<times> real" where
  "line_XY (G0 x y f) = (x, y)"
| "line_XY (G1 x y a f) = (x, y)"
| "line_XY l = (0, 0)"

text \<open>The mutable variables of a run: the previous position, the running extrusion
  total and the lines written so far.\<close>

record state =
  prevX :: real
  prevY :: real
  totalE :: real
  gcode :: "gline list"

section \<open>Brightness sampler (getBrightnessAtUV)\<close>

text \<open>
  \<open>Math.pow(val, 1.0 / gammaVal)\<close> is \<open>powr\<close>: the base is an average of byte values
  and never negative, and \<open>0 powr a = 0\<close> as \<open>Math.pow(0, a)\<close> for a positive \<open>a\<close>.
\<close>

definition pixelBrightness :: "env \<Rightarrow> int \<Rightarrow> int \<Rightarrow> real" where
  "pixelBrightness e px py =
     (let idx = (py * anaW e + px) * 4
      in (pixels e idx + pixels e (idx + 1) + pixels e (idx + 2)) / 3)"

definition getBrightnessAtUV :: "env \<Rightarrow> real \<Rightarrow> real \<Rightarrow> real" where
  "getBrightnessAtUV e u_print v_print_yup =
     (let v_print_ydown = 1 - v_print_yup;
          u_source = u_print / imageZoom e + imageOffsetX e;
          v_source = v_print_ydown / imageZoom e + imageOffsetY e;
          u_source = max 0 (min 1 u_source);
          v_source = max 0 (min 1 v_source);
          xf = u_source * of_int (anaW e - 1);
          yf = v_source * of_int (anaH e - 1);
          x0 = \<lfloor>xf\<rfloor>;
          y0 = \<lfloor>yf\<rfloor>;
          x1 = min (x0 + 1) (anaW e - 1);
          y1 = min (y0 + 1) (anaH e - 1);
          tx = xf - of_int x0;
          ty = yf - of_int y0;
          c00 = pixelBrightness e x0 y0;
          c10 = pixelBrightness e x1 y0;
          c01 = pixelBrightness e x0 y1;
          c11 = pixelBrightness e x1 y1;
          avgColor = c00 * (1 - tx) * (1 - ty) + c10 * tx * (1 - ty) + c01 * (1 - tx) * ty + c11 * tx * ty;
          val = avgColor / 255;
          val = val powr (1 / gammaVal e)
      in 1 - val)"

section \<open>Motion encoder (writeMove)\<close>

text \<open>
  \<open>writeMove\<close> returns \<open>dist\<close> and updates the state. The strokes it draws on the
  preview canvas are not part of the model.
\<close>

definition writeMove :: "env \<Rightarrow> real \<Rightarrow> real \<Rightarrow> real \<Rightarrow> real \<Rightarrow> bool \<Rightarrow> state \<Rightarrow> real \<times> state" where
  "writeMove e x y targetW targetF isTravel st =
     (let dist = hypot (x - prevX st) (y - prevY st);
          st1 = (if isTravel \<or> dist < 0.01
                 then st\<lparr>gcode := gcode st @ [G0 (toFixed 3 x) (toFixed 3 y) 6000]\<rparr>
                 else let vol = dist * targetW * layerHeight e;
                          ex = vol / filArea e
                      in st\<lparr>gcode := gcode st @ [G1 (toFixed 3 x) (toFixed 3 y) (toFixed 5 ex) (toFixed 0 targetF)],
                            totalE := totalE st + ex\<rparr>)
      in (dist, st1\<lparr>prevX := x, prevY := y\<rparr>))"

section \<open>Clip test and squiggle modulator (isInsideBaseClip, doSmartMove)\<close>

definition isInsideBaseClip :: "env \<Rightarrow> real \<Rightarrow> real \<Rightarrow> bool" where
  "isInsideBaseClip e x y =
     (if pathType e = ''spiral''
      then hypot (x - centerX e) (y - centerY e) \<le> baseRadius e - innerRadius e
      else if pathType e = ''squareSpiral'' \<or> pathType e = ''hilbert''
      then (let ins = innerRadius e
            in x \<ge> centerOffset_x e + ins \<and> x \<le> centerOffset_x e + printDim e - ins \<and>
               y \<ge> centerOffset_y e + ins \<and> y \<le> centerOffset_y e + printDim e - ins)
      else (let ins = innerRadius e
            in x \<ge> offsetX e + ins \<and> x \<le> offsetX e + printWidth e - ins \<and>
               y \<ge> offsetY e + ins \<and> y \<le> offsetY e + printHeight e - ins))"

text \<open>
  The \<open>for\<close> loop of the squiggle branch, from \<open>i\<close> up to \<open>numSegments\<close>. All
  values it uses were computed before the loop; only the state changes.
\<close>

function squiggle_loop ::
  "env \<Rightarrow> real \<Rightarrow> real \<Rightarrow> real \<Rightarrow> real \<Rightarrow> real \<Rightarrow> real \<Rightarrow> real \<Rightarrow> real \<Rightarrow> real \<Rightarrow> int \<Rightarrow> real \<Rightarrow> real \<Rightarrow> int \<Rightarrow> state \<Rightarrow> state" where
  "squiggle_loop e startX startY distTotal dx dy dx_perp dy_perp amplitude freq numSegments targetW targetF i st =
     (if i \<le> numSegments
      then (let currentDist = (of_int i / of_int numSegments) * distTotal;
                px_straight = startX + dx * of_int i;
                py_straight = startY + dy * of_int i;
                phase = currentDist * freq;
                offsetMag = sin phase * amplitude;
                px_squiggle = px_straight + dx_perp * offsetMag;
                py_squiggle = py_straight + dy_perp * offsetMag
            in squiggle_loop e startX startY distTotal dx dy dx_perp dy_perp amplitude freq
                 numSegments targetW targetF (i + 1)
                 (snd (writeMove e px_squiggle py_squiggle targetW targetF False st)))
      else st)"
  by pat_completeness auto
termination
  by (relation "measure (\<lambda>(e, startX, startY, distTotal, dx, dy, dx_perp, dy_perp, amplitude, freq,
                            numSegments, targetW, targetF, i, st). nat (numSegments + 1 - i))") auto

declare squiggle_loop.simps [simp del]

definition doSmartMove :: "env \<Rightarrow> real \<Rightarrow> real \<Rightarrow> bool \<Rightarrow> state \<Rightarrow> state" where
  "doSmartMove e x y isConnect st =
     (if addCircularBase e \<and> \<not> isInsideBaseClip e x y
      then snd (writeMove e x y 0 0 True st)
      else
        let u = (x - offsetX e) / printWidth e;
            v_yup = (y - offsetY e) / printHeight e;
            u_sample = (if mirrorimage e then 1 - u else u);
            v_sample_yup = v_yup;
            darkness = getBrightnessAtUV e u_sample v_sample_yup
        in if textMode e \<and> \<not> isConnect
           then (if darkness < textThreshold e
                 then snd (writeMove e x y 0 0 True st)
                 else snd (writeMove e x y (maxW e) (minSpeed e) False st))
           else
             let targetW = minW e + darkness * (maxW e - minW e);
                 targetF = maxSpeed e - darkness * (maxSpeed e - minSpeed e)
             in if isConnect \<or> \<not> useSquiggle e \<or> darkness < 0.1
                then snd (writeMove e x y targetW targetF isConnect st)
                else
                  let startX = prevX st;
                      startY = prevY st;
                      distTotal = hypot (x - startX) (y - startY);
                      numSegments = max 2 \<lfloor>distTotal / 0.1\<rfloor>;
                      dx = (x - startX) / of_int numSegments;
                      dy = (y - startY) / of_int numSegments;
                      norm = hypot dx dy;
                      dx_perp = - dy / norm;
                      dy_perp = dx / norm;
                      amplitude = squiggleAmp e * darkness;
                      freq = squiggleFreq e * TWO_PI
                  in squiggle_loop e startX startY distTotal dx dy dx_perp dy_perp amplitude freq
                       numSegments targetW targetF 1 st)"

subsection \<open>A reference run\<close>

text \<open>
  A parameter set inside the ranges of the form (the defaults, a 100 mm square print on
  a 250 mm bed, an all-black image of two by two pixels, no zoom or pan) and the state at
  the origin with nothing written; the concrete checks below start from them.
\<close>

definition demo_env :: env where
  "demo_env = \<lparr>pathType = ''zigzag'', filamentDia = 1.75, layerHeight = 0.2, zOffset = 0.2,
     bedWidth = 250, bedHeight = 250, originAtCenter = False,
     printWidth = 100, printHeight = 100, spacing = 0.6, minW = 0.2, maxW = 0.8,
     mirrorimage = False, minSpeedMMS = 10, maxSpeedMMS = 100,
     squiggleAmp = 0, squiggleFreq = 1, addCircularBase = False, baseMargin = 2,
     baseLayers = 2, textMode = False, textThreshold = 0.4, baseSpeedMMS = 30,
     gammaVal = 1.5, pixels = (\<lambda>i. if i mod 4 = 3 then 255 else 0), anaW = 2, anaH = 2,
     imageZoom = 1, imageOffsetX = 0, imageOffsetY = 0, innerRadius = 0\<rparr>"

definition demo_state :: state where
  "demo_state = \<lparr>prevX = 0, prevY = 0, totalE = 0, gcode = []\<rparr>"

subsection \<open>Notions used to state the properties of doSmartMove\<close>

text \<open>
  The darkness that \<open>doSmartMove(x, y)\<close> samples: once, at the target point, mirrored
  when the image is mirrored.
\<close>

definition darkness_at :: "env \<Rightarrow> real \<Rightarrow> real \<Rightarrow> real" where
  "darkness_at e x y =
     getBrightnessAtUV e
       (if mirrorimage e then 1 - (x - offsetX e) / printWidth e else (x - offsetX e) / printWidth e)
       ((y - offsetY e) / printHeight e)"

text \<open>The same run on another image.\<close>

definition with_image :: "env \<Rightarrow> (int \<Rightarrow> real) \<Rightarrow> int \<Rightarrow> int \<Rightarrow> env" where
  "with_image e p w h = e\<lparr>pixels := p, anaW := w, anaH := h\<rparr>"

text \<open>The condition under which \<open>doSmartMove\<close> reaches its squiggle branch.\<close>

definition squiggle_taken :: "env \<Rightarrow> real \<Rightarrow> real \<Rightarrow> bool \<Rightarrow> bool" where
  "squiggle_taken e x y isConnect =
     (\<not> (addCircularBase e \<and> \<not> isInsideBaseClip e x y) \<and>
      \<not> (textMode e \<and> \<not> isConnect) \<and>
      \<not> (isConnect \<or> \<not> useSquiggle e \<or> darkness_at e x y < 0.1))"

text \<open>
  The inner clip boundary of the base in the words of the specification: a closed disc
  for the spiral, a closed square for the square spiral and the space-filling curve, a
  closed rectangle otherwise, each inset by \<open>innerRadius\<close>.
\<close>

definition clip_region :: "env \<Rightarrow> (real \<times> real) set" where
  "clip_region e =
     (if pathType e = ''spiral''
      then {p. hypot (fst p - centerX e) (snd p - centerY e) \<le> baseRadius e - innerRadius e}
      else if pathType e = ''squareSpiral'' \<or> pathType e = ''hilbert''
      then {centerOffset_x e + innerRadius e .. centerOffset_x e + printDim e - innerRadius e} \<times>
           {centerOffset_y e + innerRadius e .. centerOffset_y e + printDim e - innerRadius e}
      else {offsetX e + innerRadius e .. offsetX e + printWidth e - innerRadius e} \<times>
           {offsetY e + innerRadius e .. offsetY e + printHeight e - innerRadius e})"

text \<open>
  Two concrete runs. \<open>squiggle_env\<close>: the zigzag pattern over a rectangular base
  (\<open>innerRadius\<close> is the base margin 2 plus three walls of 0.42), squiggle amplitude 5.
  \<open>gradient_env\<close>: no base, squiggle amplitude 5, gamma 1 and an image of two
  pixels, white then black, so that the darkness grows from 0 at the left edge of the
  print to 1 at the right edge.
\<close>

definition squiggle_env :: env where
  "squiggle_env = demo_env\<lparr>addCircularBase := True, squiggleAmp := 5, squiggleFreq := 2,
                           innerRadius := 3.26\<rparr>"

definition gradient_env :: env where
  "gradient_env = demo_env\<lparr>squiggleAmp := 5, squiggleFreq := 4, gammaVal := 1,
                           pixels := (\<lambda>i. if i < 4 \<or> i = 7 then 255 else 0),
                           anaW := 2, anaH := 1\<rparr>"

section \<open>Base generator (generateCircularBase, generateSquareBase, generateRectangularBase)\<close>

definition baseOverlap :: real where
  "baseOverlap = 0.45"

definition wallSpacing :: real where
  "wallSpacing = 0.42"

definition numWalls :: nat where
  "numWalls = 3"

definition BASE_LINE_WIDTH :: real where
  "BASE_LINE_WIDTH = 0.5"

text \<open>\<open>gcode.push(l)\<close>, and the assignment of both \<open>prevX\<close> and \<open>prevY\<close>.\<close>

definition push :: "gline \<Rightarrow> state \<Rightarrow> state" where
  "push l st = st\<lparr>gcode := gcode st @ [l]\<rparr>"

definition set_prev :: "real \<Rightarrow> real \<Rightarrow> state \<Rightarrow> state" where
  "set_prev x y st = st\<lparr>prevX := x, prevY := y\<rparr>"

text \<open>
  The base generators receive the values of the run in \<open>params\<close>; the model passes the
  environment and the state. Each generator copies \<open>prevX\<close> and \<open>prevY\<close> into locals
  and writes them back before it returns, which is the state passing below.
\<close>

definition writeBaseSegment :: "env \<Rightarrow> real \<Rightarrow> real \<Rightarrow> real \<Rightarrow> state \<Rightarrow> state" where
  "writeBaseSegment e x y customSpeed st =
     (let dist = hypot (x - prevX st) (y - prevY st)
      in if dist < 0.01 then st
         else let vol = dist * BASE_LINE_WIDTH * layerHeight e;
                  ex = vol / filArea e
              in st\<lparr>gcode := gcode st @ [G1 (toFixed 3 x) (toFixed 3 y) (toFixed 5 ex) (toFixed 0 customSpeed)],
                    totalE := totalE st + ex, prevX := x, prevY := y\<rparr>)"

subsection \<open>Circular base\<close>

text \<open>One circular wall: the loop over \<open>i\<close> from 1 to \<open>numPoints\<close>.\<close>

definition circular_wall :: "env \<Rightarrow> nat \<Rightarrow> state \<Rightarrow> state" where
  "circular_wall e w st =
     (let currentWallRadius = baseRadius e - of_nat w * wallSpacing;
          numPoints = max 60 \<lceil>(TWO_PI * currentWallRadius) / 0.5\<rceil>;
          dAngle = TWO_PI / of_int numPoints;
          startX = centerX e + currentWallRadius;
          startY = centerY e;
          st1 = set_prev startX startY (push (G0 (toFixed 3 startX) (toFixed 3 startY) 6000) st)
      in fold (\<lambda>i. let angle = of_int i * dAngle;
                         x = centerX e + currentWallRadius * cos angle;
                         y = centerY e + currentWallRadius * sin angle
                     in writeBaseSegment e x y (baseSpeed e))
           [1 .. numPoints] st1)"

text \<open>The infill loop \<open>for (yRel = -fillLimitRadius; yRel <= fillLimitRadius; yRel += baseOverlap)\<close>.\<close>

function circular_infill :: "env \<Rightarrow> real \<Rightarrow> real \<Rightarrow> bool \<Rightarrow> state \<Rightarrow> state" where
  "circular_infill e fillLimitRadius yRel goingRight st =
     (if yRel \<le> fillLimitRadius
      then (let infillTotalHeight = fillLimitRadius * 2;
                xLimit = sqrt (max 0 (fillLimitRadius ^ 2 - yRel ^ 2));
                xLeft = centerX e - xLimit;
                xRight = centerX e + xLimit;
                currentY = centerY e + yRel;
                currentSpeed = (if yRel < - fillLimitRadius + infillTotalHeight * 0.1
                                then baseSpeed e * 0.5 else baseSpeed e);
                st1 = (if goingRight
                       then writeBaseSegment e xRight currentY currentSpeed
                              (writeBaseSegment e xLeft currentY currentSpeed st)
                       else writeBaseSegment e xLeft currentY currentSpeed
                              (writeBaseSegment e xRight currentY currentSpeed st))
            in circular_infill e fillLimitRadius (yRel + baseOverlap) (\<not> goingRight) st1)
      else st)"
  by pat_completeness auto
termination
proof (relation "measure (\<lambda>(e, fillLimitRadius, yRel, goingRight, st).
                   nat (\<lfloor>(fillLimitRadius - yRel) / baseOverlap\<rfloor> + 1))", goal_cases)
  case 1
  show ?case by simp
next
  case (2 e fillLimitRadius yRel goingRight st)
  have "(fillLimitRadius - (yRel + baseOverlap)) / baseOverlap = (fillLimitRadius - yRel) / baseOverlap - 1"
    by (simp add: baseOverlap_def field_simps)
  moreover have "0 \<le> \<lfloor>(fillLimitRadius - yRel) / baseOverlap\<rfloor>"
    using 2 by (simp add: baseOverlap_def)
  ultimately show ?case by simp
qed

declare circular_infill.simps [simp del]

definition circular_layer :: "env \<Rightarrow> nat \<Rightarrow> state \<Rightarrow> state" where
  "circular_layer e layer st =
     (let z = zOffset e + of_nat layer * layerHeight e;
          st1 = push (G1_Z_layer (toFixed 3 z) 1000 (layer + 1) (baseLayers e)) st;
          st2 = fold (circular_wall e) [0 ..< numWalls] st1;
          st3 = push (G0_Z (toFixed 3 (z + 0.4)) 6000) (push (G1_E (- 0.8) 3000) st2);
          fillLimitRadius = baseRadius e - of_nat numWalls * wallSpacing;
          firstY = centerY e - fillLimitRadius;
          st4 = push (G1_E 0.9 3000) (push (G1_Z (toFixed 3 z) 1000)
                  (push (G0 (toFixed 3 (centerX e)) (toFixed 3 firstY) 6000) st3));
          st5 = set_prev (centerX e) firstY st4;
          st6 = circular_infill e fillLimitRadius (- fillLimitRadius) True st5
      in push (G0_Z (toFixed 3 (z + 0.5)) 6000) st6)"

text \<open>The generators return the margin and the updated state.\<close>

definition generateCircularBase :: "env \<Rightarrow> state \<Rightarrow> real \<times> state" where
  "generateCircularBase e st =
     (let st1 = push (Comment ''; --- Circular Base (Adaptive) ---'') st;
          st2 = fold (circular_layer e) [0 ..< baseLayers e] st1
      in (baseMargin e, st2))"

subsection \<open>Square and rectangular base\<close>

text \<open>
  \<open>generateSquareBase\<close> and \<open>generateRectangularBase\<close> have the same body up to
  the corner and the side lengths of the box (\<open>centerOffset\<close> and \<open>printDim\<close> twice for
  the square; \<open>offsetX\<close>, \<open>offsetY\<close>, \<open>printWidth\<close>, \<open>printHeight\<close> for the
  rectangle) and the text of the first comment. The walls, the infill loop and the layer
  are modelled once, with the box \<open>(ox, oy, width, height)\<close> as a parameter.
\<close>

definition box_wall :: "env \<Rightarrow> real \<Rightarrow> real \<Rightarrow> real \<Rightarrow> real \<Rightarrow> nat \<Rightarrow> state \<Rightarrow> state" where
  "box_wall e ox oy width height w st =
     (let inset = of_nat w * wallSpacing;
          x0 = ox + inset;
          y0 = oy + inset;
          x1 = ox + width - inset;
          y1 = oy + height - inset;
          st1 = set_prev x0 y0 (push (G0 (toFixed 3 x0) (toFixed 3 y0) 6000) st);
          bottomSegs = max 2 \<lfloor>(x1 - x0) / 0.5\<rfloor>;
          st2 = fold (\<lambda>i. writeBaseSegment e (x0 + (x1 - x0) * (of_int i / of_int bottomSegs)) y0 (baseSpeed e))
                  [1 .. bottomSegs] st1;
          rightSegs = max 2 \<lfloor>(y1 - y0) / 0.5\<rfloor>;
          st3 = fold (\<lambda>i. writeBaseSegment e x1 (y0 + (y1 - y0) * (of_int i / of_int rightSegs)) (baseSpeed e))
                  [1 .. rightSegs] st2;
          st4 = fold (\<lambda>i. writeBaseSegment e (x1 - (x1 - x0) * (of_int i / of_int bottomSegs)) y1 (baseSpeed e))
                  [1 .. bottomSegs] st3
      in fold (\<lambda>i. writeBaseSegment e x0 (y1 - (y1 - y0) * (of_int i / of_int rightSegs)) (baseSpeed e))
           [1 .. rightSegs - 1] st4)"

text \<open>The infill loop \<open>for (yRel = fillY0; yRel <= fillY1; yRel += baseOverlap)\<close>.\<close>

function box_infill :: "env \<Rightarrow> real \<Rightarrow> real \<Rightarrow> real \<Rightarrow> real \<Rightarrow> real \<Rightarrow> bool \<Rightarrow> state \<Rightarrow> state" where
  "box_infill e fillX0 fillX1 fillY0 fillY1 yRel goingRight st =
     (if yRel \<le> fillY1
      then (let fillHeight = fillY1 - fillY0;
                currentSpeed = (if yRel - fillY0 < fillHeight * 0.1
                                then baseSpeed e * 0.5 else baseSpeed e);
                st1 = (if goingRight
                       then writeBaseSegment e fillX1 yRel currentSpeed
                              (writeBaseSegment e fillX0 yRel currentSpeed st)
                       else writeBaseSegment e fillX0 yRel currentSpeed
                              (writeBaseSegment e fillX1 yRel currentSpeed st))
            in box_infill e fillX0 fillX1 fillY0 fillY1 (yRel + baseOverlap) (\<not> goingRight) st1)
      else st)"
  by pat_completeness auto
termination
proof (relation "measure (\<lambda>(e, fillX0, fillX1, fillY0, fillY1, yRel, goingRight, st).
                   nat (\<lfloor>(fillY1 - yRel) / baseOverlap\<rfloor> + 1))", goal_cases)
  case 1
  show ?case by simp
next
  case (2 e fillX0 fillX1 fillY0 fillY1 yRel goingRight st)
  have "(fillY1 - (yRel + baseOverlap)) / baseOverlap = (fillY1 - yRel) / baseOverlap - 1"
    by (simp add: baseOverlap_def field_simps)
  moreover have "0 \<le> \<lfloor>(fillY1 - yRel) / baseOverlap\<rfloor>"
    using 2 by (simp add: baseOverlap_def)
  ultimately show ?case by simp
qed

declare box_infill.simps [simp del]

definition box_layer :: "env \<Rightarrow> real \<Rightarrow> real \<Rightarrow> real \<Rightarrow> real \<Rightarrow> nat \<Rightarrow> state \<Rightarrow> state" where
  "box_layer e ox oy width height layer st =
     (let z = zOffset e + of_nat layer * layerHeight e;
          st1 = push (G1_Z_layer (toFixed 3 z) 1000 (layer + 1) (baseLayers e)) st;
          st2 = fold (box_wall e ox oy width height) [0 ..< numWalls] st1;
          st3 = push (G0_Z (toFixed 3 (z + 0.4)) 6000) (push (G1_E (- 0.8) 3000) st2);
          innerMargin = of_nat numWalls * wallSpacing;
          fillX0 = ox + innerMargin;
          fillY0 = oy + innerMargin;
          fillX1 = ox + width - innerMargin;
          fillY1 = oy + height - innerMargin;
          st4 = push (G1_E 0.9 3000) (push (G1_Z (toFixed 3 z) 1000)
                  (push (G0 (toFixed 3 fillX0) (toFixed 3 fillY0) 6000) st3));
          st5 = set_prev fillX0 fillY0 st4;
          st6 = box_infill e fillX0 fillX1 fillY0 fillY1 fillY0 True st5
      in push (G0_Z (toFixed 3 (z + 0.5)) 6000) st6)"

definition generateSquareBase :: "env \<Rightarrow> state \<Rightarrow> real \<times> state" where
  "generateSquareBase e st =
     (let st1 = push (Comment ''; --- Square Base (Adaptive) ---'') st;
          st2 = fold (box_layer e (centerOffset_x e) (centerOffset_y e) (printDim e) (printDim e))
                  [0 ..< baseLayers e] st1
      in (baseMargin e + of_nat numWalls * wallSpacing, st2))"

definition generateRectangularBase :: "env \<Rightarrow> state \<Rightarrow> real \<times> state" where
  "generateRectangularBase e st =
     (let st1 = push (Comment ''; --- Rectangular Base (Adaptive) ---'') st;
          st2 = fold (box_layer e (offsetX e) (offsetY e) (printWidth e) (printHeight e))
                  [0 ..< baseLayers e] st1
      in (baseMargin e + of_nat numWalls * wallSpacing, st2))"

text \<open>
  The choice of the generator by pattern in \<open>processImageCore\<close>; its first component
  is \<open>innerMargin\<close>, which the orchestrator stores in \<open>innerRadius\<close>.
\<close>

definition generateBase :: "env \<Rightarrow> state \<Rightarrow> real \<times> state" where
  "generateBase e st =
     (if pathType e = ''spiral'' then generateCircularBase e st
      else if pathType e = ''squareSpiral'' \<or> pathType e = ''hilbert'' then generateSquareBase e st
      else generateRectangularBase e st)"

text \<open>
  The value of \<open>innerRadius\<close> when the artwork phase starts: it is declared as 0
  and, with a base, overwritten by \<open>innerMargin\<close>.
\<close>

definition run_innerRadius :: "env \<Rightarrow> state \<Rightarrow> real" where
  "run_innerRadius e st = (if addCircularBase e then fst (generateBase e st) else 0)"

section \<open>Archimedean spiral (the spiral branch of processImageCore)\<close>

text \<open>
  The loop variables are \<open>(radius, angle, iterations)\<close> and the state. The
  \<open>break\<close> leaves the loop with the radius just computed and without the move.
\<close>

function spiral_loop :: "env \<Rightarrow> real \<Rightarrow> real \<Rightarrow> real \<Rightarrow> real \<times> real \<times> nat \<times> state \<Rightarrow> real \<times> real \<times> nat \<times> state" where
  "spiral_loop e cx cy maxRadius (radius, angle, iterations, st) =
     (if radius < maxRadius \<and> iterations < MAX_LOOP_ITERATIONS
      then (let iterations1 = iterations + 1;
                res = 0.5;
                dTheta = res / max 0.5 radius;
                angle1 = angle + dTheta;
                radius1 = (spacing e / TWO_PI) * angle1
            in if radius1 > maxRadius then (radius1, angle1, iterations1, st)
               else (let px = cx + radius1 * cos angle1;
                         py = cy + radius1 * sin angle1
                     in spiral_loop e cx cy maxRadius
                          (radius1, angle1, iterations1, doSmartMove e px py False st)))
      else (radius, angle, iterations, st))"
  by pat_completeness auto
termination
  by (relation "measure (\<lambda>(e, cx, cy, maxRadius, radius, angle, iterations, st).
                  MAX_LOOP_ITERATIONS - iterations)") auto

declare spiral_loop.simps [simp del]

text \<open>
  The spiral branch: the loop from radius 0, angle 0 and no iterations. The result holds
  the final loop variables and the state; \<open>console.warn("Spiral hit max iterations")\<close>
  is written exactly when the final \<open>iterations\<close> is at least \<open>MAX_LOOP_ITERATIONS\<close>.
\<close>

definition spiral_branch :: "env \<Rightarrow> state \<Rightarrow> real \<times> real \<times> nat \<times> state" where
  "spiral_branch e st =
     (let cx = offsetX e + printWidth e / 2;
          cy = offsetY e + printHeight e / 2;
          maxRadius = (if addCircularBase e then baseRadius e - innerRadius e else printDim e / 2)
      in spiral_loop e cx cy maxRadius (0, 0, 0, st))"

definition spiral_warns :: "real \<times> real \<times> nat \<times> state \<Rightarrow> bool" where
  "spiral_warns r = (case r of (radius, angle, iterations, st) \<Rightarrow> iterations \<ge> MAX_LOOP_ITERATIONS)"

text \<open>
  A spiral run inside the ranges of the form: line spacing 0.1 on a 200 mm square print.
\<close>

definition fine_spiral_env :: env where
  "fine_spiral_env = demo_env\<lparr>pathType := ''spiral'', spacing := 0.1,
                              printWidth := 200, printHeight := 200\<rparr>"

text \<open>
  For the proofs: the pitch constant \<open>spacing / (2 pi)\<close> of the spiral, and the
  invariant of the loop. The radius is the pitch constant times the angle; the squared
  angle grows by at most \<open>1 / c + 1\<close> in an iteration, and \<open>c * angle^2 + angle\<close>
  grows by at least 1.
\<close>

definition spiral_c :: "env \<Rightarrow> real" where
  "spiral_c e = spacing e / TWO_PI"

definition spiral_inv :: "env \<Rightarrow> real \<times> real \<times> nat \<times> state \<Rightarrow> bool" where
  "spiral_inv e s = (case s of (radius, angle, iterations, st) \<Rightarrow>
     radius = spiral_c e * angle \<and> 0 \<le> angle \<and>
     angle ^ 2 \<le> of_nat iterations * (1 / spiral_c e + 1) \<and>
     of_nat iterations \<le> spiral_c e * angle ^ 2 + angle \<and>
     iterations \<le> MAX_LOOP_ITERATIONS)"

section \<open>Properties of the template merger\<close>

text \<open>
  C10. With no template loaded (\<open>null\<close>) the merge returns the artwork block
  unchanged and writes no warning: no directive, marker, header or footer is added.
\<close>

theorem mergeWithTemplate_no_template:
  "mergeWithTemplate None modeValue artGcode = \<lparr>warnings = [], merged = artGcode\<rparr>"
  by (simp add: mergeWithTemplate_def)

lemma scan_markers_no_start:
  "\<forall>l \<in> set ls. \<not> str_includes (toUpperCase l) '';START_ART'' \<Longrightarrow>
   fst (scan_markers ls i (s, e)) = s"
  by (induction ls arbitrary: i s e) (simp_all add: Let_def)

text \<open>
  C8 (as stated). The claim puts a line feed at the end of the header. In the
  slot-select mode the change directive is empty, and there the returned text differs
  from the claimed one: the header is \<open>lines.slice(0, startIndex + 1).join("\n")\<close>,
  which ends with the marker line itself.
\<close>

theorem mergeWithTemplate_round_trip_counterexample:
  "merged (mergeWithTemplate (Some ''A\<newline>;START_ART\<newline>X\<newline>;END_ART\<newline>B'') (Some ''ams'') ''ART'') \<noteq>
     ''A\<newline>;START_ART\<newline>'' @ ''''
       @ ''\<newline>; --- START ARTWORK ---\<newline>ART\<newline>; --- END ARTWORK ---\<newline>''
       @ '';END_ART\<newline>B''"
  by (simp add: mergeWithTemplate_def toUpperCase_def toUpperCase_char_def)

text \<open>
  C8 (amended). For the template \<open>"A\n;START_ART\nX\n;END_ART\nB"\<close> and the artwork
  block \<open>"ART"\<close> the merge writes no warning when the mode element exists (and the
  one warning of \<open>getElement\<close> when it is missing) and returns the header
  \<open>"A\n;START_ART"\<close> (no line feed after the marker), then the change command, which is
  \<open>"\n; --- MANUAL PAUSE ---\nM600\n"\<close> in manual mode (also taken when the mode value
  is missing or empty) and empty in every other mode, then
  \<open>"\n; --- START ARTWORK ---\nART\n; --- END ARTWORK ---\n"\<close>, then the footer
  \<open>";END_ART\nB"\<close>.
\<close>

theorem mergeWithTemplate_round_trip:
  "mergeWithTemplate (Some ''A\<newline>;START_ART\<newline>X\<newline>;END_ART\<newline>B'') modeValue ''ART'' =
     \<lparr>warnings = (if modeValue = None then [''Element not found: filamentChangeMode''] else []),
      merged = ''A\<newline>;START_ART''
        @ (if modeValue = None \<or> modeValue = Some '''' \<or> modeValue = Some ''manual''
           then ''\<newline>; --- MANUAL PAUSE ---\<newline>M600\<newline>'' else '''')
        @ ''\<newline>; --- START ARTWORK ---\<newline>ART\<newline>; --- END ARTWORK ---\<newline>''
        @ '';END_ART\<newline>B''\<rparr>"
  by (cases modeValue)
     (simp_all add: mergeWithTemplate_def getElement_warnings_def toUpperCase_def toUpperCase_char_def)

text \<open>
  C9 (as stated). A template that was loaded from an empty file is the empty string.
  Its only line is empty and holds no marker, yet the merge treats it as "no template":
  it returns the bare artwork block and writes no warning.
\<close>

theorem mergeWithTemplate_empty_template_counterexample:
  "split_lines [] '''' = [''''] \<and>
   \<not> str_includes (toUpperCase '''') '';START_ART'' \<and>
   mergeWithTemplate (Some '''') None ''ART'' = \<lparr>warnings = [], merged = ''ART''\<rparr> \<and>
   mergeWithTemplate (Some '''') None ''ART'' \<noteq>
     \<lparr>warnings = [''Marker ;START_ART not found in template''],
      merged = '''' @ ''\<newline>'' @ ''ART''\<rparr>"
  by (simp add: mergeWithTemplate_def toUpperCase_def)

text \<open>
  C9 (amended). If the loaded template is not empty and none of its lines, upper-cased,
  contains \<open>;START_ART\<close>, the merge writes one warning and returns the whole template
  text, a line feed and the artwork block: nothing is spliced, nothing of the template
  is dropped, and neither artwork markers nor a change directive are inserted.
\<close>

theorem mergeWithTemplate_marker_missing:
  assumes "content \<noteq> []"
    and "\<forall>l \<in> set (split_lines [] content). \<not> str_includes (toUpperCase l) '';START_ART''"
  shows "mergeWithTemplate (Some content) modeValue artGcode =
         \<lparr>warnings = [''Marker ;START_ART not found in template''],
          merged = content @ ''\<newline>'' @ artGcode\<rparr>"
proof -
  obtain s e where se: "scan_markers (split_lines [] content) 0 (-1, -1) = (s, e)"
    by (cases "scan_markers (split_lines [] content) 0 (-1, -1)")
  from scan_markers_no_start [OF assms(2), of 0 "-1" "-1"] se have "s = -1" by simp
  with assms(1) se show ?thesis by (simp add: mergeWithTemplate_def)
qed

theorem mergeWithTemplate_marker_missing_witness:
  "mergeWithTemplate (Some ''G28\<newline>M104 S200'') (Some ''ams'') ''ART'' =
     \<lparr>warnings = [''Marker ;START_ART not found in template''],
      merged = ''G28\<newline>M104 S200\<newline>ART''\<rparr>"
  using mergeWithTemplate_marker_missing [of "''G28\<newline>M104 S200''" "Some ''ams''" "''ART''"]
  by (simp add: toUpperCase_def toUpperCase_char_def)

section \<open>Properties of the space-filling curve\<close>

lemma js_ToInt32_parity: "js_ToInt32 v mod 2 = v mod 2"
proof -
  have "even (js_ToInt32 v) = even v"
    by (simp add: js_ToInt32_def sint_sbintrunc' even_signed_take_bit_iff)
  then show ?thesis by presburger
qed

lemma js_bitand_1: "js_bitand 1 v = v mod 2"
proof -
  have one: "js_ToInt32 1 = 1" by (simp add: js_ToInt32_def)
  show ?thesis
    unfolding js_bitand_def one one_and_eq by (rule js_ToInt32_parity)
qed

lemma js_bitxor_parity: "js_bitxor a b mod 2 = (a + b) mod 2"
proof -
  have "even (js_bitxor a b) = (even (js_ToInt32 a) = even (js_ToInt32 b))"
    by (simp add: js_bitxor_def even_xor_iff)
  also have "\<dots> = (even a = even b)"
    by (simp add: js_ToInt32_def sint_sbintrunc' even_signed_take_bit_iff)
  finally show ?thesis by presburger
qed

lemma sdiv2_nonneg: "0 \<le> t \<Longrightarrow> t sdiv 2 = t div (2::int)"
  by (simp add: signed_divide_int_def sgn_if)

lemma hilbert_step_quad:
  assumes "0 \<le> t"
  shows "hilbert_step s (x, y, t) = (fst (quad s (t mod 4) (x, y)), snd (quad s (t mod 4) (x, y)), t div 4)"
proof -
  have rx: "js_bitand 1 (t sdiv 2) = t div 2 mod 2"
    using assms by (simp add: js_bitand_1 sdiv2_nonneg)
  have ry: "js_bitand 1 (js_bitxor t r) = (t + r) mod 2" for r
    by (simp add: js_bitand_1 js_bitxor_parity)
  have "t mod 4 = 0 \<or> t mod 4 = 1 \<or> t mod 4 = 2 \<or> t mod 4 = 3" by presburger
  moreover have "t mod 4 = 0 \<Longrightarrow> t div 2 mod 2 = 0 \<and> (t + 0) mod 2 = 0" by presburger
  moreover have "t mod 4 = 1 \<Longrightarrow> t div 2 mod 2 = 0 \<and> (t + 0) mod 2 = 1" by presburger
  moreover have "t mod 4 = 2 \<Longrightarrow> t div 2 mod 2 = 1 \<and> (t + 1) mod 2 = 1" by presburger
  moreover have "t mod 4 = 3 \<Longrightarrow> t div 2 mod 2 = 1 \<and> (t + 1) mod 2 = 0" by presburger
  ultimately show ?thesis
    by (elim disjE) (simp_all add: hilbert_step_def quad_def rx ry Let_def)
qed

lemma hilbert_iter_hcurve:
  "0 \<le> t \<Longrightarrow> hilbert_iter k (0, 0, t) = (fst (hcurve k t), snd (hcurve k t), t div 4 ^ k)"
proof (induction k)
  case 0
  then show ?case by simp
next
  case (Suc k)
  have nn: "0 \<le> t div 4 ^ k" using Suc.prems by (simp add: pos_imp_zdiv_nonneg_iff)
  have "t div (4 ^ k * 4) = t div 4 ^ k div 4"
    by (rule zdiv_zmult2_eq) simp
  then have dd: "t div 4 ^ k div 4 = t div 4 ^ Suc k"
    by (simp add: mult.commute)
  show ?case
    using Suc hilbert_step_quad [OF nn] dd by simp
qed

lemma hilbert_loop_iter:
  "j \<le> k \<Longrightarrow> hilbert_loop (2 ^ k) (2 ^ j) (hilbert_iter j st) =
     Some (fst (hilbert_iter k st), fst (snd (hilbert_iter k st)))"
proof (induction "k - j" arbitrary: j)
  case 0
  then have "j = k" by simp
  then show ?case by (subst hilbert_loop.simps) simp
next
  case (Suc m)
  then have lt: "j < k" and m: "m = k - Suc j" and le: "Suc j \<le> k" by simp_all
  have "(2::int) ^ j < 2 ^ k" using lt by simp
  then have "hilbert_loop (2 ^ k) (2 ^ j) (hilbert_iter j st) =
        hilbert_loop (2 ^ k) (2 ^ Suc j) (hilbert_iter (Suc j) st)"
    by (subst hilbert_loop.simps) (simp add: mult.commute)
  also have "\<dots> = Some (fst (hilbert_iter k st), fst (snd (hilbert_iter k st)))"
    using Suc.hyps(1) [OF m le] .
  finally show ?case .
qed

lemma js_shl_1: 
  assumes "order < 31" shows "js_shl 1 order = 2 ^ order"
proof -
  have m: "order mod 32 = order" using assms by simp
  have w: "push_bit order (1::32 word) = word_of_int (2 ^ order)"
    by (simp add: push_bit_of_1)
  have lt: "(2::int) ^ order < 2 ^ 31" using assms by (rule power_strict_increasing) simp
  have ge: "- ((2::int) ^ 31) \<le> 2 ^ order"
    by (rule order.trans [of _ 0]) simp_all
  have "signed_take_bit 31 ((2::int) ^ order) = 2 ^ order"
    using ge lt by (rule signed_take_bit_int_eq_self)
  then show ?thesis
    unfolding js_shl_def m by (simp only: of_int_1 w sint_sbintrunc') simp
qed

lemma hilbert_hcurve:
  assumes "order < 31" "0 \<le> d"
  shows "hilbert order d = Some (hcurve order d)"
proof -
  have "hilbert order d = hilbert_loop (2 ^ order) (2 ^ 0) (hilbert_iter 0 (0, 0, d))"
    using assms(1) by (simp add: hilbert_def js_shl_1)
  also have "\<dots> = Some (fst (hilbert_iter order (0, 0, d)), fst (snd (hilbert_iter order (0, 0, d))))"
    by (rule hilbert_loop_iter) simp
  finally show ?thesis using hilbert_iter_hcurve [OF assms(2), of order] by simp
qed

lemma quad_in_square:
  "0 \<le> q \<Longrightarrow> q < 4 \<Longrightarrow> in_square s p \<Longrightarrow> in_square (2 * s) (quad s q p)"
  by (cases p) (auto simp: in_square_def quad_def)

lemma quad_inj:
  assumes "in_square s p" "in_square s p'" "0 \<le> q" "q < 4" "0 \<le> q'" "q' < 4"
    and "quad s q p = quad s q' p'"
  shows "q = q' \<and> p = p'"
proof -
  have "q = 0 \<or> q = 1 \<or> q = 2 \<or> q = 3" using assms(3,4) by arith
  moreover have "q' = 0 \<or> q' = 1 \<or> q' = 2 \<or> q' = 3" using assms(5,6) by arith
  ultimately show ?thesis
    using assms(1,2,7) by (cases p; cases p') (auto simp: in_square_def quad_def)
qed

lemma quad_manhattan: "manhattan (quad s q p) (quad s q p') = manhattan p p'"
  by (cases p; cases p') (auto simp: manhattan_def quad_def)

lemma hcurve_in_square: "in_square (2 ^ k) (hcurve k t)"
proof (induction k)
  case 0
  show ?case by (simp add: in_square_def)
next
  case (Suc k)
  have "in_square (2 * 2 ^ k) (quad (2 ^ k) (t div 4 ^ k mod 4) (hcurve k t))"
    by (rule quad_in_square) (use Suc in simp_all)
  then show ?case by simp
qed

lemma hcurve_mod: "hcurve k (t mod 4 ^ k) = hcurve k t"
proof (induction k arbitrary: t)
  case 0
  show ?case by simp
next
  case (Suc k)
  have a: "t mod 4 ^ Suc k mod 4 ^ k = t mod 4 ^ k"
    by (simp add: mod_mod_cancel)
  have "hcurve k (t mod 4 ^ Suc k) = hcurve k (t mod 4 ^ Suc k mod 4 ^ k)"
    by (rule Suc.IH [symmetric])
  also have "\<dots> = hcurve k t" unfolding a by (rule Suc.IH)
  finally have b: "hcurve k (t mod 4 ^ Suc k) = hcurve k t" .
  have "t mod (4 ^ k * 4) = 4 ^ k * (t div 4 ^ k mod 4) + t mod 4 ^ k"
    by (rule zmod_zmult2_eq) simp
  then have "t mod (4 ^ k * 4) div 4 ^ k = t div 4 ^ k mod 4"
    by simp
  then have c: "t mod 4 ^ Suc k div 4 ^ k mod 4 = t div 4 ^ k mod 4"
    by (simp add: mult.commute)
  show ?case by (simp only: hcurve.simps b c)
qed

lemma hcurve_Suc_split:
  assumes "0 \<le> q" "q < 4" "0 \<le> r" "r < 4 ^ k"
  shows "hcurve (Suc k) (q * 4 ^ k + r) = quad (2 ^ k) q (hcurve k r)"
proof -
  have d: "(q * 4 ^ k + r) div 4 ^ k = q" using assms(3,4) by simp
  have m: "(q * 4 ^ k + r) mod 4 ^ k = r" using assms(3,4) by simp
  have "hcurve k (q * 4 ^ k + r) = hcurve k r"
    using hcurve_mod [of k "q * 4 ^ k + r"] unfolding m by simp
  then show ?thesis using assms(1,2) by (simp add: d)
qed

lemma index_split:
  fixes t :: int
  assumes "0 \<le> t" "t < 4 ^ Suc k"
  shows "t = (t div 4 ^ k) * 4 ^ k + t mod 4 ^ k \<and> 0 \<le> t div 4 ^ k \<and> t div 4 ^ k < 4
         \<and> 0 \<le> t mod 4 ^ k \<and> t mod 4 ^ k < 4 ^ k"
proof -
  have eq: "t = t div 4 ^ k * 4 ^ k + t mod 4 ^ k" by (rule div_mult_mod_eq [symmetric])
  have m0: "0 \<le> t mod 4 ^ k" and m1: "t mod 4 ^ k < 4 ^ k" by simp_all
  have le: "t div 4 ^ k * 4 ^ k \<le> t" using eq m0 by linarith
  have d0: "0 \<le> t div 4 ^ k" using assms(1) by (simp add: pos_imp_zdiv_nonneg_iff)
  have d1: "t div 4 ^ k < 4"
  proof (rule ccontr)
    assume "\<not> t div 4 ^ k < 4"
    then have "4 \<le> t div 4 ^ k" by simp
    then have "4 * 4 ^ k \<le> t div 4 ^ k * (4::int) ^ k" by (simp add: mult_right_mono)
    with le assms(2) show False by simp
  qed
  show ?thesis using eq d0 d1 m0 m1 by blast
qed

lemma hcurve_inj:
  "0 \<le> t \<Longrightarrow> t < 4 ^ k \<Longrightarrow> 0 \<le> u \<Longrightarrow> u < 4 ^ k \<Longrightarrow> hcurve k t = hcurve k u \<Longrightarrow> t = u"
proof (induction k arbitrary: t u)
  case 0
  then show ?case by simp
next
  case (Suc k)
  let ?b = "(4::int) ^ k"
  from index_split [OF Suc.prems(1,2)]
  have t: "t = t div ?b * ?b + t mod ?b" and tq: "0 \<le> t div ?b" "t div ?b < 4"
    and tr: "0 \<le> t mod ?b" "t mod ?b < ?b" by simp_all
  from index_split [OF Suc.prems(3,4)]
  have u: "u = u div ?b * ?b + u mod ?b" and uq: "0 \<le> u div ?b" "u div ?b < 4"
    and ur: "0 \<le> u mod ?b" "u mod ?b < ?b" by simp_all
  have ht: "hcurve (Suc k) t = quad (2 ^ k) (t div ?b) (hcurve k (t mod ?b))"
    using hcurve_Suc_split [OF tq tr] t by simp
  have hu: "hcurve (Suc k) u = quad (2 ^ k) (u div ?b) (hcurve k (u mod ?b))"
    using hcurve_Suc_split [OF uq ur] u by simp
  have "quad (2 ^ k) (t div ?b) (hcurve k (t mod ?b)) = quad (2 ^ k) (u div ?b) (hcurve k (u mod ?b))"
    using Suc.prems(5) ht hu by simp
  from quad_inj [OF hcurve_in_square hcurve_in_square tq uq this]
  have q: "t div ?b = u div ?b" and p: "hcurve k (t mod ?b) = hcurve k (u mod ?b)" by simp_all
  have "t mod ?b = u mod ?b" using Suc.IH [OF tr ur p] .
  with q t u show ?case by metis
qed

lemma hcurve_start: "hcurve k 0 = (0, 0)"
  by (induction k) (simp_all add: quad_def)

lemma hcurve_end: "hcurve k (4 ^ k - 1) = (2 ^ k - 1, 0)"
proof (induction k)
  case 0
  show ?case by simp
next
  case (Suc k)
  have "(4::int) ^ Suc k - 1 = 3 * 4 ^ k + (4 ^ k - 1)" by simp
  then have "hcurve (Suc k) (4 ^ Suc k - 1) = quad (2 ^ k) 3 (hcurve k (4 ^ k - 1))"
    using hcurve_Suc_split [of 3 "4 ^ k - 1" k] by simp
  then show ?case using Suc by (simp add: quad_def)
qed

lemma hcurve_adjacent:
  "0 \<le> t \<Longrightarrow> t + 1 < 4 ^ k \<Longrightarrow> manhattan (hcurve k t) (hcurve k (t + 1)) = 1"
proof (induction k arbitrary: t)
  case 0
  then show ?case by simp
next
  case (Suc k)
  let ?b = "(4::int) ^ k"
  have t4: "t < 4 ^ Suc k" using Suc.prems(2) by simp
  from index_split [OF Suc.prems(1) t4]
  have t: "t = t div ?b * ?b + t mod ?b" and tq: "0 \<le> t div ?b" "t div ?b < 4"
    and tr: "0 \<le> t mod ?b" "t mod ?b < ?b" by simp_all
  have ht: "hcurve (Suc k) t = quad (2 ^ k) (t div ?b) (hcurve k (t mod ?b))"
    using hcurve_Suc_split [OF tq tr] t by simp
  show ?case
  proof (cases "t mod ?b + 1 < ?b")
    case True
    have e: "t + 1 = t div ?b * ?b + (t mod ?b + 1)" using t by linarith
    have "hcurve (Suc k) (t div ?b * ?b + (t mod ?b + 1)) =
          quad (2 ^ k) (t div ?b) (hcurve k (t mod ?b + 1))"
      by (rule hcurve_Suc_split [OF tq _ True]) (use tr(1) in simp)
    then have h1: "hcurve (Suc k) (t + 1) = quad (2 ^ k) (t div ?b) (hcurve k (t mod ?b + 1))"
      by (subst e)
    show ?thesis unfolding ht h1 quad_manhattan using Suc.IH [OF tr(1) True] .
  next
    case False
    with tr(2) have r: "t mod ?b = ?b - 1" by linarith
    have "(t div ?b + 1) * ?b = t div ?b * ?b + ?b" by (simp add: algebra_simps)
    with t r have t1: "t + 1 = (t div ?b + 1) * ?b + 0" by linarith
    have q3: "t div ?b + 1 < 4"
    proof (rule ccontr)
      assume "\<not> t div ?b + 1 < 4"
      with tq have "t div ?b = 3" by simp
      with t r have "t + 1 = 4 * ?b" by simp
      with Suc.prems(2) show False by simp
    qed
    have "hcurve (Suc k) ((t div ?b + 1) * ?b + 0) = quad (2 ^ k) (t div ?b + 1) (hcurve k 0)"
      by (rule hcurve_Suc_split) (use tq(1) q3 in simp_all)
    then have h1: "hcurve (Suc k) (t + 1) = quad (2 ^ k) (t div ?b + 1) (hcurve k 0)"
      by (subst t1)
    have "t div ?b = 0 \<or> t div ?b = 1 \<or> t div ?b = 2" using tq(1) q3 by arith
    then show ?thesis
      unfolding ht h1 r hcurve_start hcurve_end
      by (auto simp: quad_def manhattan_def)
  qed
qed

lemma manhattan_chebyshev: "manhattan p q = 1 \<Longrightarrow> chebyshev p q = 1"
  by (auto simp: manhattan_def chebyshev_def)

text \<open>
  C1. For every order below 31 (where \<open>1 << order\<close> is \<open>2 ^ order\<close>; the user
  interface only offers 3 to 8) the call \<open>hilbert(order, d)\<close> returns for every integer
  index \<open>d\<close> in \<open>[0, 4 ^ order)\<close>, and the returned cells are a bijection from the
  indices onto the grid \<open>[0, 2 ^ order) \<times> [0, 2 ^ order)\<close>: no cell is returned twice and
  none is left out.
\<close>

theorem hilbert_bijection:
  assumes "order < 31"
  shows "\<exists>f. (\<forall>d \<in> {0 ..< 4 ^ order}. hilbert order d = Some (f d)) \<and>
             bij_betw f {0 ..< 4 ^ order} ({0 ..< 2 ^ order} \<times> {0 ..< 2 ^ order})"
proof (intro exI conjI ballI)
  fix d :: int
  assume "d \<in> {0 ..< 4 ^ order}"
  then show "hilbert order d = Some (hcurve order d)"
    using assms by (simp add: hilbert_hcurve)
next
  let ?I = "{0 ..< (4::int) ^ order}" and ?S = "{0 ..< (2::int) ^ order} \<times> {0 ..< (2::int) ^ order}"
  have inj: "inj_on (hcurve order) ?I"
    by (rule inj_onI) (metis atLeastLessThan_iff hcurve_inj)
  have sub: "hcurve order ` ?I \<subseteq> ?S"
  proof (rule image_subsetI)
    fix t
    have "in_square (2 ^ order) (hcurve order t)" by (rule hcurve_in_square)
    then show "hcurve order t \<in> ?S"
      by (cases "hcurve order t") (simp add: in_square_def)
  qed
  have "card (hcurve order ` ?I) = card ?I" using inj by (rule card_image)
  also have "\<dots> = card ?S"
    by (simp add: card_cartesian_product power_mult_distrib [symmetric] nat_power_eq)
  finally have "hcurve order ` ?I = ?S"
    using sub by (intro card_subset_eq) simp_all
  with inj show "bij_betw (hcurve order) ?I ?S" by (simp add: bij_betw_def)
qed

theorem hilbert_bijection_witness:
  "\<exists>f. (\<forall>d \<in> {0 ..< 4 ^ 3}. hilbert 3 d = Some (f d)) \<and>
       bij_betw f {0 ..< 4 ^ 3} ({0 ..< 2 ^ 3} \<times> {0 ..< 2 ^ 3})"
  using hilbert_bijection [of 3] by simp

text \<open>
  C2. For every order below 31 and every pair of consecutive indices \<open>d\<close>, \<open>d + 1\<close> in
  \<open>[0, 4 ^ order)\<close>, both calls return and the two cells are at Chebyshev distance
  exactly 1.
\<close>

theorem hilbert_locality:
  assumes "order < 31" "0 \<le> d" "d + 1 < 4 ^ order"
  shows "\<exists>p q. hilbert order d = Some p \<and> hilbert order (d + 1) = Some q \<and> chebyshev p q = 1"
proof (intro exI conjI)
  show "hilbert order d = Some (hcurve order d)"
    using assms(1,2) by (rule hilbert_hcurve)
  show "hilbert order (d + 1) = Some (hcurve order (d + 1))"
    using assms(1,2) by (intro hilbert_hcurve) simp_all
  show "chebyshev (hcurve order d) (hcurve order (d + 1)) = 1"
    using assms(2,3) by (intro manhattan_chebyshev hcurve_adjacent)
qed

lemma hilbert_3_5: "hilbert 3 5 = Some (3, 0)"
  by code_simp

lemma hilbert_3_6: "hilbert 3 6 = Some (3, 1)"
  by code_simp

theorem hilbert_locality_witness:
  "hilbert 3 5 = Some (3, 0) \<and> hilbert 3 (5 + 1) = Some (3, 1) \<and> chebyshev (3, 0) (3, 1) = 1"
  using hilbert_locality [of 3 5] hilbert_3_5 hilbert_3_6 by auto

section \<open>Properties of the motion encoder\<close>

lemma hypot_0_right: "hypot a 0 = \<bar>a\<bar>"
  by (simp add: hypot_def)

lemma toFixed_error: "\<bar>toFixed f v - v\<bar> \<le> 1 / (2 * 10 ^ f)"
proof -
  have key: "\<bar>of_int \<lfloor>w * 10 ^ f + 1 / 2\<rfloor> / 10 ^ f - w\<bar> \<le> 1 / (2 * 10 ^ f)" for w :: real
  proof -
    let ?p = "(10::real) ^ f"
    have p: "0 < ?p" by simp
    have "of_int \<lfloor>w * ?p + 1 / 2\<rfloor> \<le> w * ?p + 1 / 2" by (rule of_int_floor_le)
    moreover have "w * ?p + 1 / 2 < of_int \<lfloor>w * ?p + 1 / 2\<rfloor> + 1" by linarith
    ultimately have h: "\<bar>of_int \<lfloor>w * ?p + 1 / 2\<rfloor> - w * ?p\<bar> \<le> 1 / 2" by linarith
    have "\<bar>of_int \<lfloor>w * ?p + 1 / 2\<rfloor> - w * ?p\<bar> / ?p \<le> (1 / 2) / ?p"
      using h by (rule divide_right_mono) simp
    moreover have "\<bar>of_int \<lfloor>w * ?p + 1 / 2\<rfloor> - w * ?p\<bar> / ?p = \<bar>(of_int \<lfloor>w * ?p + 1 / 2\<rfloor> - w * ?p) / ?p\<bar>"
      by simp
    moreover have "(of_int \<lfloor>w * ?p + 1 / 2\<rfloor> - w * ?p) / ?p = of_int \<lfloor>w * ?p + 1 / 2\<rfloor> / ?p - w"
      by (simp add: diff_divide_distrib)
    ultimately show ?thesis by simp
  qed
  show ?thesis
  proof (cases "v < 0")
    case True
    have "\<bar>toFixed f v - v\<bar> = \<bar>of_int \<lfloor>(- v) * 10 ^ f + 1 / 2\<rfloor> / 10 ^ f - (- v)\<bar>"
      using True by (simp add: toFixed_def abs_minus_commute)
    then show ?thesis using key [of "- v"] by simp
  next
    case False
    then show ?thesis using key [of v] by (simp add: toFixed_def)
  qed
qed

text \<open>
  C3. An instruction has the extrusion length and the feed rate that \<open>writeMove\<close>
  computes; the line pushed onto \<open>gcode\<close> prints them with five and with no
  decimals. For a positive filament diameter (the form keeps it in \<open>[0.1, 5]\<close>): if
  \<open>isTravel\<close> holds or the distance from the previous position is below 0.01, the
  instruction is a non-extruding move at the feed rate 6000 and the total is unchanged.
  Otherwise the extrusion length is exactly
  \<open>ex = dist * targetW * layerHeight / (pi * (filamentDia / 2)^2)\<close>, the instruction is
  a printing move at the feed rate \<open>targetF\<close>, and \<open>ex\<close> is added to \<open>totalE\<close>.
  The printed fields are \<open>ex\<close> to five decimals (at most \<open>0.000005\<close> away) and
  \<open>targetF\<close> as an integer (at most \<open>0.5\<close> away). In both cases the position
  fields are the target to three decimals, the previous position becomes the target,
  and \<open>dist\<close> is returned.
\<close>

theorem writeMove_spec:
  assumes "0 < filamentDia e"
  shows "(isTravel \<or> hypot (x - prevX st) (y - prevY st) < 0.01 \<longrightarrow>
            writeMove e x y targetW targetF isTravel st =
              (hypot (x - prevX st) (y - prevY st),
               st\<lparr>gcode := gcode st @ [G0 (toFixed 3 x) (toFixed 3 y) 6000], prevX := x, prevY := y\<rparr>)) \<and>
         (\<not> (isTravel \<or> hypot (x - prevX st) (y - prevY st) < 0.01) \<longrightarrow>
            (\<exists>ex. ex = hypot (x - prevX st) (y - prevY st) * targetW * layerHeight e / (pi * (filamentDia e / 2) ^ 2) \<and>
              writeMove e x y targetW targetF isTravel st =
                (hypot (x - prevX st) (y - prevY st),
                 st\<lparr>gcode := gcode st @ [G1 (toFixed 3 x) (toFixed 3 y) (toFixed 5 ex) (toFixed 0 targetF)],
                    totalE := totalE st + ex, prevX := x, prevY := y\<rparr>) \<and>
              \<bar>toFixed 5 ex - ex\<bar> \<le> 1 / 200000 \<and> \<bar>toFixed 0 targetF - targetF\<bar> \<le> 1 / 2))"
proof (intro conjI impI)
  assume "isTravel \<or> hypot (x - prevX st) (y - prevY st) < 0.01"
  then show "writeMove e x y targetW targetF isTravel st =
              (hypot (x - prevX st) (y - prevY st),
               st\<lparr>gcode := gcode st @ [G0 (toFixed 3 x) (toFixed 3 y) 6000], prevX := x, prevY := y\<rparr>)"
    by (simp add: writeMove_def Let_def)
next
  let ?ex = "hypot (x - prevX st) (y - prevY st) * targetW * layerHeight e / (pi * (filamentDia e / 2) ^ 2)"
  assume n: "\<not> (isTravel \<or> hypot (x - prevX st) (y - prevY st) < 0.01)"
  have a: "writeMove e x y targetW targetF isTravel st =
                (hypot (x - prevX st) (y - prevY st),
                 st\<lparr>gcode := gcode st @ [G1 (toFixed 3 x) (toFixed 3 y) (toFixed 5 ?ex) (toFixed 0 targetF)],
                    totalE := totalE st + ?ex, prevX := x, prevY := y\<rparr>)"
    using n by (simp add: writeMove_def Let_def filArea_def)
  have b: "\<bar>toFixed 5 ?ex - ?ex\<bar> \<le> 1 / 200000"
    using toFixed_error [of 5 ?ex] by simp
  have c: "\<bar>toFixed 0 targetF - targetF\<bar> \<le> 1 / 2"
    using toFixed_error [of 0 targetF] by simp
  show "\<exists>ex. ex = ?ex \<and>
              writeMove e x y targetW targetF isTravel st =
                (hypot (x - prevX st) (y - prevY st),
                 st\<lparr>gcode := gcode st @ [G1 (toFixed 3 x) (toFixed 3 y) (toFixed 5 ex) (toFixed 0 targetF)],
                    totalE := totalE st + ex, prevX := x, prevY := y\<rparr>) \<and>
              \<bar>toFixed 5 ex - ex\<bar> \<le> 1 / 200000 \<and> \<bar>toFixed 0 targetF - targetF\<bar> \<le> 1 / 2"
    using a b c by blast
qed

theorem writeMove_spec_witness:
  "writeMove demo_env 3 0 0.5 1200 True demo_state =
     (3, demo_state\<lparr>gcode := [G0 3 0 6000], prevX := 3, prevY := 0\<rparr>) \<and>
   writeMove demo_env 3 0 0.4 1200 False demo_state =
     (3, demo_state\<lparr>gcode := [G1 3 0 (toFixed 5 (3 * 0.4 * 0.2 / (pi * (1.75 / 2) ^ 2))) 1200],
           totalE := 3 * 0.4 * 0.2 / (pi * (1.75 / 2) ^ 2), prevX := 3, prevY := 0\<rparr>)"
proof -
  have d: "0 < filamentDia demo_env" by (simp add: demo_env_def)
  have h: "hypot (3 - prevX demo_state) (0 - prevY demo_state) = 3"
    by (simp add: demo_state_def hypot_0_right)
  have t: "toFixed 3 3 = 3" "toFixed 3 0 = 0" "toFixed 0 1200 = 1200" by (simp_all add: toFixed_def)
  from writeMove_spec [OF d, of True 3 demo_state 0 "0.5" 1200]
       writeMove_spec [OF d, of False 3 demo_state 0 "0.4" 1200]
  show ?thesis
    unfolding h t by (simp add: demo_env_def demo_state_def)
qed

section \<open>Properties of the clip test and the squiggle modulator\<close>

lemma isInsideBaseClip_region: "isInsideBaseClip e x y \<longleftrightarrow> (x, y) \<in> clip_region e"
  by (simp add: isInsideBaseClip_def clip_region_def Let_def)

lemma writeMove_gcode:
  "\<exists>l. gcode (snd (writeMove e x y w f t st)) = gcode st @ [l] \<and> (is_print l \<longrightarrow> \<not> t) \<and>
       line_XY l = (toFixed 3 x, toFixed 3 y)"
  by (simp add: writeMove_def Let_def)

lemma getBrightnessAtUV_black:
  assumes "\<And>px py. pixelBrightness e px py = 0"
  shows "getBrightnessAtUV e u v = 1"
  by (simp add: getBrightnessAtUV_def Let_def assms)

lemma pixelBrightness_black:
  assumes "pixels e = (\<lambda>i. if i mod 4 = 3 then 255 else 0)"
  shows "pixelBrightness e px py = 0"
proof -
  have "((py * anaW e + px) * 4) mod 4 = 0" "((py * anaW e + px) * 4 + 1) mod 4 = 1"
    "((py * anaW e + px) * 4 + 2) mod 4 = 2"
    by presburger+
  then show ?thesis by (simp add: pixelBrightness_def assms Let_def)
qed

lemma hypot_ge_right: "\<bar>b\<bar> \<le> hypot a b"
  unfolding hypot_def by (rule real_le_rsqrt) (simp add: power2_eq_square)

lemma squiggle_loop_prefix:
  "\<exists>ls. gcode (squiggle_loop e startX startY distTotal dx dy dx_perp dy_perp amplitude freq
                  numSegments targetW targetF i st) = gcode st @ ls"
proof (induction e startX startY distTotal dx dy dx_perp dy_perp amplitude freq
         numSegments targetW targetF i st rule: squiggle_loop.induct)
  case (1 e startX startY distTotal dx dy dx_perp dy_perp amplitude freq numSegments targetW targetF i st)
  show ?case
  proof (cases "i \<le> numSegments")
    case False
    then show ?thesis by (subst squiggle_loop.simps) simp
  next
    case True
    let ?st1 = "snd (writeMove e (startX + dx * of_int i + dx_perp * (sin (of_int i / of_int numSegments * distTotal * freq) * amplitude))
                  (startY + dy * of_int i + dy_perp * (sin (of_int i / of_int numSegments * distTotal * freq) * amplitude))
                  targetW targetF False st)"
    from "1.IH" [OF True refl refl refl refl refl refl refl]
    obtain ls where "gcode (squiggle_loop e startX startY distTotal dx dy dx_perp dy_perp amplitude freq
                  numSegments targetW targetF (i + 1) ?st1) = gcode ?st1 @ ls" by blast
    moreover obtain l where "gcode ?st1 = gcode st @ [l]"
      using writeMove_gcode by blast
    ultimately show ?thesis
      using True by (subst squiggle_loop.simps) (simp add: Let_def)
  qed
qed

text \<open>
  C4 (as stated). With a base configured and the squiggle on, \<open>doSmartMove\<close> tests
  only the target of the segment against the clip boundary; the sub-points are pushed
  sideways by up to the squiggle amplitude and are printed without a test. Here the
  segment runs at \<open>y = 171\<close>, inside the clip rectangle, whose upper edge is at
  \<open>y = 171.74\<close>; its first sub-point is printed at \<open>(80.125, 176)\<close>, outside the
  boundary.
\<close>

theorem doSmartMove_squiggle_outside_counterexample:
  "addCircularBase squiggle_env \<and>
   innerRadius squiggle_env = run_innerRadius squiggle_env demo_state \<and>
   isInsideBaseClip squiggle_env 80.25 171 \<and>
   is_print (hd (gcode (doSmartMove squiggle_env 80.25 171 False
                   \<lparr>prevX = 80, prevY = 171, totalE = 0, gcode = []\<rparr>))) \<and>
   line_XY (hd (gcode (doSmartMove squiggle_env 80.25 171 False
                   \<lparr>prevX = 80, prevY = 171, totalE = 0, gcode = []\<rparr>))) = (80.125, 176) \<and>
   \<not> isInsideBaseClip squiggle_env 80.125 176"
proof -
  have far: "\<not> hypot a 5 < 1 / 100" for a
    using hypot_ge_right [of 5 a] by simp
  have in1: "isInsideBaseClip squiggle_env 80.25 171"
    by (simp add: isInsideBaseClip_def squiggle_env_def demo_env_def offsetX_def offsetY_def)
  have out: "\<not> isInsideBaseClip squiggle_env 80.125 176"
    by (simp add: isInsideBaseClip_def squiggle_env_def demo_env_def offsetX_def offsetY_def)
  have ph: "sin (1 / 2 * (1 / 4) * (2 * (2 * pi))) = 1"
  proof -
    have "1 / 2 * (1 / 4) * (2 * (2 * pi)) = pi / 2" by simp
    then show ?thesis by (simp only: sin_pi_half)
  qed
  have loop: "squiggle_loop squiggle_env 80 171 (1/4) (1/8) 0 0 1 5 (2 * (2 * pi)) 2 w f 1
                \<lparr>prevX = 80, prevY = 171, totalE = 0, gcode = []\<rparr>
              = squiggle_loop squiggle_env 80 171 (1/4) (1/8) 0 0 1 5 (2 * (2 * pi)) 2 w f 2
                  (snd (writeMove squiggle_env 80.125 176 w f False
                     \<lparr>prevX = 80, prevY = 171, totalE = 0, gcode = []\<rparr>))" for w f
    by (subst squiggle_loop.simps) (simp add: ph Let_def)
  have px: "pixels squiggle_env = (\<lambda>i. if i mod 4 = 3 then 255 else 0)"
    by (simp add: squiggle_env_def demo_env_def)
  have dark: "getBrightnessAtUV squiggle_env u v = 1" for u v
    by (rule getBrightnessAtUV_black) (rule pixelBrightness_black [OF px])
  have sel: "addCircularBase squiggle_env" "\<not> textMode squiggle_env" "\<not> mirrorimage squiggle_env"
    "useSquiggle squiggle_env"
    "squiggleAmp squiggle_env = 5" "squiggleFreq squiggle_env = 2"
    by (simp_all add: squiggle_env_def demo_env_def useSquiggle_def)
  have fl: "\<lfloor>(5::real) / 2\<rfloor> = 2" by simp
  have d: "doSmartMove squiggle_env 80.25 171 False \<lparr>prevX = 80, prevY = 171, totalE = 0, gcode = []\<rparr>
           = squiggle_loop squiggle_env 80 171 (1/4) (1/8) 0 0 1 5 (2 * (2 * pi)) 2
               (minW squiggle_env + 1 * (maxW squiggle_env - minW squiggle_env))
               (maxSpeed squiggle_env - 1 * (maxSpeed squiggle_env - minSpeed squiggle_env)) 1
               \<lparr>prevX = 80, prevY = 171, totalE = 0, gcode = []\<rparr>"
    using in1 by (simp add: doSmartMove_def sel dark hypot_0_right TWO_PI_def Let_def fl)
  obtain ls where pre: "gcode (squiggle_loop squiggle_env 80 171 (1/4) (1/8) 0 0 1 5 (2 * (2 * pi)) 2
               (minW squiggle_env + 1 * (maxW squiggle_env - minW squiggle_env))
               (maxSpeed squiggle_env - 1 * (maxSpeed squiggle_env - minSpeed squiggle_env)) 2
                  (snd (writeMove squiggle_env 80.125 176 (minW squiggle_env + 1 * (maxW squiggle_env - minW squiggle_env))
               (maxSpeed squiggle_env - 1 * (maxSpeed squiggle_env - minSpeed squiggle_env)) False
                     \<lparr>prevX = 80, prevY = 171, totalE = 0, gcode = []\<rparr>)))
            = gcode (snd (writeMove squiggle_env 80.125 176 (minW squiggle_env + 1 * (maxW squiggle_env - minW squiggle_env))
               (maxSpeed squiggle_env - 1 * (maxSpeed squiggle_env - minSpeed squiggle_env)) False
                     \<lparr>prevX = 80, prevY = 171, totalE = 0, gcode = []\<rparr>)) @ ls"
    using squiggle_loop_prefix by blast
  have w: "\<exists>a b. gcode (snd (writeMove squiggle_env 80.125 176 w f False
                     \<lparr>prevX = 80, prevY = 171, totalE = 0, gcode = []\<rparr>)) = [G1 80.125 176 a b]" for w f
    using far [of "1 / 8"] by (simp add: writeMove_def Let_def toFixed_def)
  have ir: "innerRadius squiggle_env = run_innerRadius squiggle_env demo_state"
    by (simp add: run_innerRadius_def generateBase_def generateRectangularBase_def Let_def
        numWalls_def wallSpacing_def squiggle_env_def demo_env_def)
  show ?thesis
    unfolding d loop pre using w [of "minW squiggle_env + 1 * (maxW squiggle_env - minW squiggle_env)"
       "maxSpeed squiggle_env - 1 * (maxSpeed squiggle_env - minSpeed squiggle_env)"] in1 out sel(1) ir
    by auto
qed

text \<open>
  C4 (amended). With a base configured and a print area of positive width and height,
  every call of \<open>doSmartMove\<close> that does not
  take the squiggle branch (text mode, a connector move, squiggle amplitude at most 0.01,
  or darkness below 0.1) writes exactly one line towards its target, and if that line is
  a printing move, the target lies in the closed clip region of the pattern's shape:
  disc for the spiral, square for the square spiral and the space-filling curve,
  rectangle otherwise, points on the boundary included. A target outside the region is
  reached by a travel move. The sub-points of the squiggle branch are not tested.
\<close>

theorem doSmartMove_clip:
  assumes "addCircularBase e" and "\<not> squiggle_taken e x y isConnect"
    and "0 < printWidth e" and "0 < printHeight e"
  shows "\<exists>l. gcode (doSmartMove e x y isConnect st) = gcode st @ [l] \<and>
             line_XY l = (toFixed 3 x, toFixed 3 y) \<and>
             (is_print l \<longrightarrow> (x, y) \<in> clip_region e)"
proof (cases "isInsideBaseClip e x y")
  case False
  then have d: "doSmartMove e x y isConnect st = snd (writeMove e x y 0 0 True st)"
    using assms(1) by (simp add: doSmartMove_def)
  show ?thesis unfolding d using writeMove_gcode [of e x y 0 0 True st] by auto
next
  case True
  then have r: "(x, y) \<in> clip_region e" by (simp add: isInsideBaseClip_region)
  have ns: "(textMode e \<and> \<not> isConnect) \<or> (isConnect \<or> \<not> useSquiggle e \<or> darkness_at e x y < 0.1)"
    using assms(2) True by (simp add: squiggle_taken_def)
  have "\<exists>w f t. doSmartMove e x y isConnect st = snd (writeMove e x y w f t st)"
  proof (cases "textMode e \<and> \<not> isConnect")
    case tm: True
    show ?thesis
    proof (cases "darkness_at e x y < textThreshold e")
      case True
      with tm \<open>isInsideBaseClip e x y\<close>
      have "doSmartMove e x y isConnect st = snd (writeMove e x y 0 0 True st)"
        by (simp add: doSmartMove_def darkness_at_def Let_def)
      then show ?thesis by blast
    next
      case False
      with tm \<open>isInsideBaseClip e x y\<close>
      have "doSmartMove e x y isConnect st = snd (writeMove e x y (maxW e) (minSpeed e) False st)"
        by (simp add: doSmartMove_def darkness_at_def Let_def)
      then show ?thesis by blast
    qed
  next
    case False
    with ns have c: "isConnect \<or> \<not> useSquiggle e \<or> darkness_at e x y < 0.1" by blast
    from False c \<open>isInsideBaseClip e x y\<close>
    have "doSmartMove e x y isConnect st =
          snd (writeMove e x y (minW e + darkness_at e x y * (maxW e - minW e))
                 (maxSpeed e - darkness_at e x y * (maxSpeed e - minSpeed e)) isConnect st)"
      unfolding doSmartMove_def darkness_at_def Let_def by (simp only: if_True if_False simp_thms)
    then show ?thesis by blast
  qed
  then obtain w f t where d: "doSmartMove e x y isConnect st = snd (writeMove e x y w f t st)"
    by blast
  show ?thesis unfolding d using writeMove_gcode [of e x y w f t st] r by auto
qed

theorem doSmartMove_clip_witness:
  "\<exists>l. gcode (doSmartMove (demo_env\<lparr>addCircularBase := True, innerRadius := 3.26\<rparr>) 100 100 False demo_state)
          = gcode demo_state @ [l] \<and>
       line_XY l = (toFixed 3 100, toFixed 3 100) \<and>
       (is_print l \<longrightarrow> (100, 100) \<in> clip_region (demo_env\<lparr>addCircularBase := True, innerRadius := 3.26\<rparr>))"
  by (rule doSmartMove_clip)
     (simp_all add: demo_env_def squiggle_taken_def useSquiggle_def)

lemma writeMove_image [simp]:
  "writeMove (with_image e p w h) x y tw tf t st = writeMove e x y tw tf t st"
  by (simp add: writeMove_def filArea_def with_image_def Let_def)

lemma isInsideBaseClip_image [simp]:
  "isInsideBaseClip (with_image e p w h) x y = isInsideBaseClip e x y"
  by (simp add: isInsideBaseClip_def centerX_def centerY_def baseRadius_def printDim_def
      centerOffset_x_def centerOffset_y_def offsetX_def offsetY_def with_image_def Let_def)

lemma squiggle_loop_image [simp]:
  "squiggle_loop (with_image e p w h) startX startY distTotal dx dy dx_perp dy_perp amplitude freq
      numSegments targetW targetF i st =
   squiggle_loop e startX startY distTotal dx dy dx_perp dy_perp amplitude freq
      numSegments targetW targetF i st"
proof (induction e startX startY distTotal dx dy dx_perp dy_perp amplitude freq
         numSegments targetW targetF i st rule: squiggle_loop.induct)
  case (1 e startX startY distTotal dx dy dx_perp dy_perp amplitude freq numSegments targetW targetF i st)
  show ?case
  proof (cases "i \<le> numSegments")
    case False
    then show ?thesis by (simp add: squiggle_loop.simps [of _ _ _ _ _ _ _ _ _ _ numSegments _ _ i])
  next
    case True
    from "1.IH" [OF True refl refl refl refl refl refl refl] True
    show ?thesis
      by (simp add: squiggle_loop.simps [of _ _ _ _ _ _ _ _ _ _ numSegments _ _ i] Let_def)
  qed
qed

text \<open>
  C5 (as stated). The image darkens from left to right and the segment ends at the right
  edge, where the darkness is 1. The squiggle branch is taken and prints two
  sub-segments. At the first sub-point the darkness of the image is 0.99875, which would
  give the feed rate 607; the line is written with feed rate 600, the one for the
  darkness 1 sampled at the end of the segment.
\<close>

theorem doSmartMove_no_resampling_counterexample:
  "squiggle_taken gradient_env 175 100 False \<and>
   darkness_at gradient_env 175 100 = 1 \<and>
   darkness_at gradient_env 174.875 100 = 0.99875 \<and>
   map line_XY (gcode (doSmartMove gradient_env 175 100 False
       \<lparr>prevX = 174.75, prevY = 100, totalE = 0, gcode = []\<rparr>)) = [(174.875, 100), (175, 100)] \<and>
   map line_F (gcode (doSmartMove gradient_env 175 100 False
       \<lparr>prevX = 174.75, prevY = 100, totalE = 0, gcode = []\<rparr>)) = [600, 600] \<and>
   toFixed 0 (maxSpeed gradient_env - 0.99875 * (maxSpeed gradient_env - minSpeed gradient_env)) = 607"
proof -
  have sel: "\<not> addCircularBase gradient_env" "\<not> textMode gradient_env" "\<not> mirrorimage gradient_env"
    "useSquiggle gradient_env"
    "squiggleAmp gradient_env = 5" "squiggleFreq gradient_env = 4"
    "offsetX gradient_env = 75" "offsetY gradient_env = 75" "printWidth gradient_env = 100"
    "printHeight gradient_env = 100" "minSpeed gradient_env = 600" "maxSpeed gradient_env = 6000"
    by (simp_all add: gradient_env_def demo_env_def useSquiggle_def offsetX_def offsetY_def
        minSpeed_def maxSpeed_def)
  have img: "imageZoom gradient_env = 1" "imageOffsetX gradient_env = 0" "imageOffsetY gradient_env = 0"
    "anaW gradient_env = 2" "anaH gradient_env = 1" "gammaVal gradient_env = 1"
    "pixels gradient_env = (\<lambda>i. if i < 4 \<or> i = 7 then 255 else 0)"
    by (simp_all add: gradient_env_def demo_env_def)
  have pb: "pixelBrightness gradient_env 0 0 = 255" "pixelBrightness gradient_env 1 0 = 0"
    by (simp_all add: pixelBrightness_def img Let_def)
  have s1: "getBrightnessAtUV gradient_env 1 (1 / 4) = 1"
    by (simp add: getBrightnessAtUV_def img pb Let_def)
  have s2: "getBrightnessAtUV gradient_env (799 / 800) (1 / 4) = 799 / 800"
    by (simp add: getBrightnessAtUV_def img pb Let_def)
  have d1: "darkness_at gradient_env 175 100 = 1"
    by (simp add: darkness_at_def sel s1)
  have d2: "darkness_at gradient_env 174.875 100 = 0.99875"
    by (simp add: darkness_at_def sel s2)
  have sq: "squiggle_taken gradient_env 175 100 False"
    by (simp add: squiggle_taken_def sel d1)
  have fl: "\<lfloor>(5::real) / 2\<rfloor> = 2" by simp
  have big: "\<not> hypot (1 / 8) 0 * 100 < 1" by (simp add: hypot_0_right)
  have ph1: "sin (1 / 2 * (1 / 4) * (4 * (2 * pi))) = 0"
  proof -
    have "1 / 2 * (1 / 4) * (4 * (2 * pi)) = pi" by simp
    then show ?thesis by (simp only: sin_pi)
  qed
  have ph2: "sin (2 / 2 * (1 / 4) * (4 * (2 * pi))) = 0"
  proof -
    have "2 / 2 * (1 / 4) * (4 * (2 * pi)) = 2 * pi" by simp
    then show ?thesis by (simp only: sin_two_pi)
  qed
  have tf: "toFixed 3 (1399 / 8) = 1399 / 8" "toFixed 3 100 = 100" "toFixed 3 175 = 175"
    "toFixed 0 600 = 600"
    by (simp_all add: toFixed_def)
  have run: "gcode (doSmartMove gradient_env 175 100 False
                \<lparr>prevX = 174.75, prevY = 100, totalE = 0, gcode = []\<rparr>) =
             [G1 174.875 100 (toFixed 5 (1 / 8 * maxW gradient_env * layerHeight gradient_env / filArea gradient_env)) 600,
              G1 175 100 (toFixed 5 (1 / 8 * maxW gradient_env * layerHeight gradient_env / filArea gradient_env)) 600]"
    apply (simp add: doSmartMove_def sel s1 hypot_0_right TWO_PI_def Let_def fl)
    apply (subst squiggle_loop.simps)
    apply (simp add: Let_def ph1 writeMove_def hypot_0_right tf)
    apply (subst squiggle_loop.simps)
    apply (simp add: Let_def ph2 writeMove_def hypot_0_right tf)
    apply (subst squiggle_loop.simps)
    apply (simp add: Let_def sel)
    done
  have t: "toFixed 0 (maxSpeed gradient_env - 0.99875 * (maxSpeed gradient_env - minSpeed gradient_env)) = 607"
    by (simp add: sel toFixed_def)
  show ?thesis
  proof (intro conjI)
    show "map line_XY (gcode (doSmartMove gradient_env 175 100 False
            \<lparr>prevX = 174.75, prevY = 100, totalE = 0, gcode = []\<rparr>)) = [(174.875, 100), (175, 100)]"
      unfolding run by simp
    show "map line_F (gcode (doSmartMove gradient_env 175 100 False
            \<lparr>prevX = 174.75, prevY = 100, totalE = 0, gcode = []\<rparr>)) = [600, 600]"
      unfolding run by simp
  qed (rule sq d1 d2 t)+
qed

text \<open>
  C5 (amended). For a print area of positive width and height, \<open>doSmartMove\<close>
  samples the brightness once, at the target of the segment, and what it writes depends
  on the image through that one value only: the same run on another image with the same
  darkness at the target gives the same lines and the same state, whatever the two
  images hold at the sub-points of the squiggle. Offset magnitude, width and speed of
  all sub-segments are computed from that single value.
\<close>

theorem doSmartMove_single_sample:
  assumes "darkness_at (with_image e p w h) x y = darkness_at e x y"
    and "0 < printWidth e" and "0 < printHeight e"
  shows "doSmartMove (with_image e p w h) x y isConnect st = doSmartMove e x y isConnect st"
proof -
  have same: "offsetX (with_image e p w h) = offsetX e" "offsetY (with_image e p w h) = offsetY e"
    "minSpeed (with_image e p w h) = minSpeed e" "maxSpeed (with_image e p w h) = maxSpeed e"
    "useSquiggle (with_image e p w h) = useSquiggle e"
    "printWidth (with_image e p w h) = printWidth e" "printHeight (with_image e p w h) = printHeight e"
    "mirrorimage (with_image e p w h) = mirrorimage e" "textMode (with_image e p w h) = textMode e"
    "addCircularBase (with_image e p w h) = addCircularBase e"
    "textThreshold (with_image e p w h) = textThreshold e"
    "minW (with_image e p w h) = minW e" "maxW (with_image e p w h) = maxW e"
    "squiggleAmp (with_image e p w h) = squiggleAmp e" "squiggleFreq (with_image e p w h) = squiggleFreq e"
    by (simp_all add: with_image_def offsetX_def offsetY_def minSpeed_def maxSpeed_def useSquiggle_def)
  have d: "getBrightnessAtUV (with_image e p w h)
             (if mirrorimage e then 1 - (x - offsetX e) / printWidth e else (x - offsetX e) / printWidth e)
             ((y - offsetY e) / printHeight e) =
           getBrightnessAtUV e
             (if mirrorimage e then 1 - (x - offsetX e) / printWidth e else (x - offsetX e) / printWidth e)
             ((y - offsetY e) / printHeight e)"
    by (cases "mirrorimage e") (use assms(1) in \<open>simp_all add: darkness_at_def same\<close>)
  show ?thesis
    unfolding doSmartMove_def Let_def same isInsideBaseClip_image writeMove_image
      squiggle_loop_image d ..
qed

theorem doSmartMove_single_sample_witness:
  "doSmartMove (with_image gradient_env (\<lambda>i. if i mod 4 = 3 then 255 else 0) 2 2) 175 100 False
     \<lparr>prevX = 174.75, prevY = 100, totalE = 0, gcode = []\<rparr> =
   doSmartMove gradient_env 175 100 False
     \<lparr>prevX = 174.75, prevY = 100, totalE = 0, gcode = []\<rparr>"
proof (rule doSmartMove_single_sample)
  let ?b = "with_image gradient_env (\<lambda>i. if i mod 4 = 3 then 255 else 0) 2 2"
  have "pixels ?b = (\<lambda>i. if i mod 4 = 3 then 255 else 0)" by (simp add: with_image_def)
  then have "getBrightnessAtUV ?b u v = 1" for u v
    by (intro getBrightnessAtUV_black pixelBrightness_black)
  then have l: "darkness_at ?b 175 100 = 1" by (simp add: darkness_at_def)
  have img: "imageZoom gradient_env = 1" "imageOffsetX gradient_env = 0" "imageOffsetY gradient_env = 0"
    "anaW gradient_env = 2" "anaH gradient_env = 1" "gammaVal gradient_env = 1"
    "pixels gradient_env = (\<lambda>i. if i < 4 \<or> i = 7 then 255 else 0)"
    "offsetX gradient_env = 75" "offsetY gradient_env = 75" "printWidth gradient_env = 100"
    "printHeight gradient_env = 100" "\<not> mirrorimage gradient_env"
    by (simp_all add: gradient_env_def demo_env_def offsetX_def offsetY_def)
  have pb: "pixelBrightness gradient_env 1 0 = 0"
    by (simp add: pixelBrightness_def img Let_def)
  have "getBrightnessAtUV gradient_env 1 (1 / 4) = 1"
    by (simp add: getBrightnessAtUV_def img pb Let_def)
  then have r: "darkness_at gradient_env 175 100 = 1"
    by (simp add: darkness_at_def img)
  show "darkness_at ?b 175 100 = darkness_at gradient_env 175 100"
    unfolding l r ..
  show "0 < printWidth gradient_env" "0 < printHeight gradient_env"
    by (simp_all add: img)
qed

section \<open>Properties of the base generator\<close>

lemma generateCircularBase_margin: "fst (generateCircularBase e st) = baseMargin e"
  by (simp add: generateCircularBase_def Let_def)

lemma generateSquareBase_margin: "fst (generateSquareBase e st) = baseMargin e + 3 * 0.42"
  by (simp add: generateSquareBase_def Let_def numWalls_def wallSpacing_def)

lemma generateRectangularBase_margin: "fst (generateRectangularBase e st) = baseMargin e + 3 * 0.42"
  by (simp add: generateRectangularBase_def Let_def numWalls_def wallSpacing_def)

text \<open>
  C6. The claim gives one margin for all three shapes: the configured margin plus three
  walls of 0.42. The square and the rectangular generator return that
  (\<open>baseMargin + numWalls * wallSpacing\<close>); the circular generator returns
  \<open>baseMargin\<close> alone. With the default margin 2 the spiral pattern gets the inner
  margin 2, the other patterns get 3.26.
\<close>

theorem generateCircularBase_margin_divergence:
  "fst (generateCircularBase (demo_env\<lparr>pathType := ''spiral'', addCircularBase := True\<rparr>) demo_state) = 2 \<and>
   run_innerRadius (demo_env\<lparr>pathType := ''spiral'', addCircularBase := True\<rparr>) demo_state = 2 \<and>
   baseMargin (demo_env\<lparr>pathType := ''spiral'', addCircularBase := True\<rparr>) + 3 * 0.42 = 3.26 \<and>
   fst (generateBase (demo_env\<lparr>pathType := ''hilbert'', addCircularBase := True\<rparr>) demo_state) = 3.26 \<and>
   fst (generateBase (demo_env\<lparr>pathType := ''zigzag'', addCircularBase := True\<rparr>) demo_state) = 3.26"
  by (simp add: run_innerRadius_def generateBase_def generateCircularBase_margin generateSquareBase_margin
      generateRectangularBase_margin demo_env_def)

section \<open>Properties of the spiral loop\<close>

lemma spiral_step_inv:
  fixes c radius angle :: real
  assumes c: "0 < c" and r: "radius = c * angle" and a: "0 \<le> angle"
    and up: "angle ^ 2 \<le> of_nat k * (1 / c + 1)"
    and lo: "of_nat k \<le> c * angle ^ 2 + angle"
  defines "angle1 \<equiv> angle + 0.5 / max 0.5 radius"
  shows "0 \<le> angle1" and "angle1 ^ 2 \<le> of_nat (k + 1) * (1 / c + 1)"
    and "of_nat (k + 1) \<le> c * angle1 ^ 2 + angle1"
proof -
  let ?m = "max 0.5 radius"
  let ?d = "0.5 / ?m"
  have m: "0.5 \<le> ?m" "radius \<le> ?m" by simp_all
  have mpos: "0 < ?m" using m(1) by linarith
  have d0: "0 < ?d" using mpos by simp
  have d1: "?d \<le> 1" using m(1) mpos by (simp add: field_simps)
  show a1: "0 \<le> angle1" using a d0 by (simp add: angle1_def)
  have sq: "angle1 ^ 2 = angle ^ 2 + 2 * angle * ?d + ?d ^ 2"
    by (simp add: angle1_def power2_eq_square algebra_simps)
  have "c * angle \<le> ?m" using r m(2) by simp
  then have "angle \<le> ?m / c" using c by (simp add: field_simps)
  then have "angle / ?m \<le> 1 / c" using mpos c by (simp add: field_simps)
  moreover have "2 * angle * ?d = angle / ?m" by simp
  ultimately have t1: "2 * angle * ?d \<le> 1 / c" by simp
  have t2: "?d ^ 2 \<le> 1" using d0 d1 by (simp add: power_le_one)
  have "angle1 ^ 2 \<le> angle ^ 2 + (1 / c + 1)" using sq t1 t2 by linarith
  also have "\<dots> \<le> of_nat k * (1 / c + 1) + (1 / c + 1)" using up by simp
  also have "\<dots> = of_nat (k + 1) * (1 / c + 1)" by (simp add: algebra_simps)
  finally show "angle1 ^ 2 \<le> of_nat (k + 1) * (1 / c + 1)" .
  show "of_nat (k + 1) \<le> c * angle1 ^ 2 + angle1"
  proof (cases "radius \<le> 0.5")
    case True
    then have "?d = 1" by (simp add: max_def)
    then have e: "angle1 = angle + 1" by (simp add: angle1_def)
    have "c * angle ^ 2 \<le> c * (angle + 1) ^ 2"
      using c a by (simp add: power2_eq_square algebra_simps)
    then show ?thesis using lo unfolding e by simp
  next
    case False
    then have mm: "?m = c * angle" using r by (simp add: max_def)
    have apos: "0 < angle" using False r c a by (cases "angle = 0") simp_all
    have one: "c * (2 * angle * ?d) = 1" unfolding mm using c apos by simp
    have nn: "0 \<le> c * ?d ^ 2" using c by simp
    have "c * angle1 ^ 2 = c * angle ^ 2 + c * (2 * angle * ?d) + c * ?d ^ 2"
      by (simp only: sq distrib_left)
    then have "c * angle1 ^ 2 \<ge> c * angle ^ 2 + 1"
      using one nn by linarith
    moreover have "angle \<le> angle1" using d0 by (simp add: angle1_def)
    ultimately show ?thesis using lo by simp
  qed
qed

lemma spiral_loop_post:
  assumes c: "0 < spiral_c e" and inv: "spiral_inv e (radius, angle, k, st)"
  shows "case spiral_loop e cx cy R (radius, angle, k, st) of (r', a', k', st') \<Rightarrow>
           spiral_inv e (r', a', k', st') \<and>
           (k' < MAX_LOOP_ITERATIONS \<longrightarrow> R \<le> r') \<and>
           (k' = k \<or> real k' - 1 < (R ^ 2 + R) / spiral_c e)"
  using c inv
proof (induction e cx cy R "(radius, angle, k, st)" arbitrary: radius angle k st rule: spiral_loop.induct)
  case (1 e cx cy maxRadius radius angle iterations st)
  note c = "1.prems"(1) and inv = "1.prems"(2)
  have r: "radius = spiral_c e * angle" and a: "0 \<le> angle"
    and up: "angle ^ 2 \<le> of_nat iterations * (1 / spiral_c e + 1)"
    and lo: "of_nat iterations \<le> spiral_c e * angle ^ 2 + angle"
    using inv by (simp_all add: spiral_inv_def)
  show ?case
  proof (cases "radius < maxRadius \<and> iterations < MAX_LOOP_ITERATIONS")
    case False
    have "spiral_loop e cx cy maxRadius (radius, angle, iterations, st) = (radius, angle, iterations, st)"
      by (subst spiral_loop.simps) (use False in auto)
    then show ?thesis using inv False by auto
  next
    case True
    let ?angle1 = "angle + 0.5 / max 0.5 radius"
    let ?radius1 = "(spacing e / TWO_PI) * ?angle1"
    have r1: "?radius1 = spiral_c e * ?angle1" by (simp add: spiral_c_def)
    from spiral_step_inv [OF c r a up lo]
    have a1: "0 \<le> ?angle1" and up1: "?angle1 ^ 2 \<le> of_nat (iterations + 1) * (1 / spiral_c e + 1)"
      and lo1: "of_nat (iterations + 1) \<le> spiral_c e * ?angle1 ^ 2 + ?angle1"
      by simp_all
    have inv1: "spiral_inv e (?radius1, ?angle1, iterations + 1, s)" for s
      using r1 a1 up1 lo1 True by (simp add: spiral_inv_def)
    have rn: "0 \<le> radius" using r a c by simp
    have "real iterations \<le> (radius ^ 2 + radius) / spiral_c e"
    proof -
      have "angle = radius / spiral_c e" using r c by simp
      then have "spiral_c e * angle ^ 2 + angle = (radius ^ 2 + radius) / spiral_c e"
        using c by (simp add: power2_eq_square field_simps)
      with lo show ?thesis by simp
    qed
    moreover have "(radius ^ 2 + radius) / spiral_c e < (maxRadius ^ 2 + maxRadius) / spiral_c e"
    proof -
      have "radius ^ 2 < maxRadius ^ 2" using rn True by (simp add: power_strict_mono)
      then have "radius ^ 2 + radius < maxRadius ^ 2 + maxRadius" using True by simp
      then show ?thesis using c by (simp add: divide_strict_right_mono)
    qed
    ultimately have before: "real iterations < (maxRadius ^ 2 + maxRadius) / spiral_c e" by simp
    show ?thesis
    proof (cases "?radius1 > maxRadius")
      case br: True
      have "spiral_loop e cx cy maxRadius (radius, angle, iterations, st) = (?radius1, ?angle1, iterations + 1, st)"
        by (subst spiral_loop.simps) (use True br in \<open>simp add: Let_def\<close>)
      then show ?thesis using inv1 [of st] br before by simp
    next
      case nb: False
      let ?st1 = "doSmartMove e (cx + ?radius1 * cos ?angle1) (cy + ?radius1 * sin ?angle1) False st"
      have eq: "spiral_loop e cx cy maxRadius (radius, angle, iterations, st) =
                spiral_loop e cx cy maxRadius (?radius1, ?angle1, iterations + 1, ?st1)"
        by (subst spiral_loop.simps) (use True nb in \<open>simp add: Let_def\<close>)
      have "case spiral_loop e cx cy maxRadius (?radius1, ?angle1, iterations + 1, ?st1) of (r', a', k', st') \<Rightarrow>
              spiral_inv e (r', a', k', st') \<and>
              (k' < MAX_LOOP_ITERATIONS \<longrightarrow> maxRadius \<le> r') \<and>
              (k' = iterations + 1 \<or> real k' - 1 < (maxRadius ^ 2 + maxRadius) / spiral_c e)"
        by (rule "1.hyps" [OF True refl refl refl refl refl nb refl refl c inv1])
      then show ?thesis unfolding eq using before by auto
    qed
  qed
qed

lemma spiral_loop_bounds:
  assumes "0 < spacing e"
  shows "case spiral_loop e cx cy R (0, 0, 0, st) of (r', a', k', st') \<Rightarrow>
           k' \<le> MAX_LOOP_ITERATIONS \<and>
           (k' < MAX_LOOP_ITERATIONS \<longrightarrow> R \<le> r') \<and>
           r' ^ 2 \<le> real k' * (spiral_c e + spiral_c e ^ 2) \<and>
           ((R ^ 2 + R) / spiral_c e + 1 \<le> real MAX_LOOP_ITERATIONS \<longrightarrow>
              k' < MAX_LOOP_ITERATIONS \<and> R \<le> r') \<and>
           (0 < R \<and> real MAX_LOOP_ITERATIONS * (spiral_c e + spiral_c e ^ 2) < R ^ 2 \<longrightarrow>
              k' = MAX_LOOP_ITERATIONS \<and> r' < R)"
proof -
  let ?c = "spiral_c e"
  have c: "0 < ?c" using assms by (simp add: spiral_c_def TWO_PI_def)
  have inv0: "spiral_inv e (0, 0, 0, st)" by (simp add: spiral_inv_def)
  obtain r' a' k' st' where res: "spiral_loop e cx cy R (0, 0, 0, st) = (r', a', k', st')"
    by (cases "spiral_loop e cx cy R (0, 0, 0, st)") auto
  from spiral_loop_post [OF c inv0, where cx = cx and cy = cy and R = R] res
  have inv: "spiral_inv e (r', a', k', st')"
    and stop: "k' < MAX_LOOP_ITERATIONS \<longrightarrow> R \<le> r'"
    and cnt: "k' = 0 \<or> real k' - 1 < (R ^ 2 + R) / ?c"
    by simp_all
  from inv have r: "r' = ?c * a'" and a: "0 \<le> a'" and up: "a' ^ 2 \<le> real k' * (1 / ?c + 1)"
    and kmax: "k' \<le> MAX_LOOP_ITERATIONS"
    by (simp_all add: spiral_inv_def)
  have "r' ^ 2 = ?c ^ 2 * a' ^ 2" using r by (simp add: power_mult_distrib)
  also have "\<dots> \<le> ?c ^ 2 * (real k' * (1 / ?c + 1))"
    using up by (intro mult_left_mono) simp_all
  also have "\<dots> = real k' * (?c + ?c ^ 2)"
    using c by (simp add: power2_eq_square field_simps)
  finally have grow: "r' ^ 2 \<le> real k' * (?c + ?c ^ 2)" .
  have early: "k' < MAX_LOOP_ITERATIONS \<and> R \<le> r'"
    if h: "(R ^ 2 + R) / ?c + 1 \<le> real MAX_LOOP_ITERATIONS"
  proof -
    have "k' < MAX_LOOP_ITERATIONS"
    proof (cases "k' = 0")
      case True
      then show ?thesis by (simp add: MAX_LOOP_ITERATIONS_def)
    next
      case False
      with cnt have "real k' - 1 < (R ^ 2 + R) / ?c" by simp
      with h have "real k' < real MAX_LOOP_ITERATIONS" by linarith
      then show ?thesis by simp
    qed
    with stop show ?thesis by simp
  qed
  have capped: "k' = MAX_LOOP_ITERATIONS \<and> r' < R"
    if h: "0 < R \<and> real MAX_LOOP_ITERATIONS * (?c + ?c ^ 2) < R ^ 2"
  proof -
    have "0 \<le> ?c + ?c ^ 2" using c by simp
    then have "real k' * (?c + ?c ^ 2) \<le> real MAX_LOOP_ITERATIONS * (?c + ?c ^ 2)"
      using kmax by (intro mult_right_mono) simp_all
    with grow h have "r' ^ 2 < R ^ 2" by linarith
    moreover have "0 \<le> R" using h by linarith
    ultimately have lt: "r' < R" by (rule power2_less_imp_less)
    with stop have "\<not> k' < MAX_LOOP_ITERATIONS" by linarith
    with kmax have "k' = MAX_LOOP_ITERATIONS" by linarith
    with lt show ?thesis by blast
  qed
  show ?thesis unfolding res prod.case using kmax stop grow early capped by blast
qed

text \<open>
  C7 (as stated). Line spacing 0.1 and a 200 mm square print are inside the ranges of
  the form; the maximum radius is 100. After 100000 iterations the radius is still below
  it (the squared radius is at most \<open>100000 * (c + c^2)\<close> with
  \<open>c = 0.1 / (2 pi)\<close>, less than 2563): the loop stops because of the iteration cap
  and the warning is written.
\<close>

theorem spiral_cap_counterexample:
  "0 < spacing fine_spiral_env \<and>
   fst (snd (snd (spiral_branch fine_spiral_env demo_state))) = MAX_LOOP_ITERATIONS \<and>
   fst (spiral_branch fine_spiral_env demo_state) < printDim fine_spiral_env / 2 \<and>
   spiral_warns (spiral_branch fine_spiral_env demo_state)"
proof -
  let ?e = fine_spiral_env
  have sp: "0 < spacing ?e" by (simp add: fine_spiral_env_def demo_env_def)
  have c: "spiral_c ?e = 1 / (20 * pi)"
    by (simp add: spiral_c_def TWO_PI_def fine_spiral_env_def demo_env_def)
  have "1 / (20 * pi) \<le> 1 / 40" using pi_ge_two by (simp add: field_simps)
  moreover have "0 \<le> 1 / (20 * pi)" by simp
  ultimately have q: "spiral_c ?e \<le> 1 / 40" "spiral_c ?e ^ 2 \<le> (1 / 40) ^ 2"
    unfolding c by (simp_all only: power_mono)
  have q2: "spiral_c ?e ^ 2 \<le> 1 / 1600" using q(2) by (simp add: power2_eq_square)
  have lin: "100000 * (a + b) < 10000" if "a \<le> 1 / 40" "b \<le> 1 / 1600" for a b :: real
    using that by (simp add: algebra_simps)
  have "100000 * (spiral_c ?e + spiral_c ?e ^ 2) < 10000"
    using q(1) q2 by (rule lin)
  then have "real MAX_LOOP_ITERATIONS * (spiral_c ?e + spiral_c ?e ^ 2) < 100 ^ 2"
    by (simp add: MAX_LOOP_ITERATIONS_def)
  then have h: "0 < (100::real) \<and> real MAX_LOOP_ITERATIONS * (spiral_c ?e + spiral_c ?e ^ 2) < 100 ^ 2"
    by simp
  have b: "spiral_branch ?e demo_state =
           spiral_loop ?e (offsetX ?e + printWidth ?e / 2) (offsetY ?e + printHeight ?e / 2) 100 (0, 0, 0, demo_state)"
    by (simp add: spiral_branch_def Let_def printDim_def fine_spiral_env_def demo_env_def)
  have pd: "printDim ?e / 2 = 100" by (simp add: printDim_def fine_spiral_env_def demo_env_def)
  from spiral_loop_bounds [OF sp, where R = 100 and st = demo_state
        and cx = "offsetX ?e + printWidth ?e / 2" and cy = "offsetY ?e + printHeight ?e / 2"] h sp
  show ?thesis
    unfolding b [symmetric] pd
    by (auto simp: spiral_warns_def split: prod.splits)
qed

text \<open>
  C7 (amended). For every spacing above 0, with \<open>c = spacing / (2 pi)\<close> and
  \<open>R\<close> the maximum radius, the spiral loop terminates after at most
  \<open>MAX_LOOP_ITERATIONS = 100000\<close> iterations, and if it stops with fewer, the radius
  has reached \<open>R\<close>. After \<open>k\<close> iterations the squared radius is at most
  \<open>k * (c + c^2)\<close>. If \<open>(R^2 + R) / c + 1 \<le> 100000\<close> (the default 100 mm print
  with spacing 0.6 for one), the loop stops by reaching the radius in fewer than 100000
  iterations. If \<open>R > 0\<close> and \<open>100000 * (c + c^2) < R^2\<close>, the iteration cap is the
  reason the loop stops, with the radius still below \<open>R\<close>.
\<close>

theorem spiral_loop_termination:
  assumes "0 < spacing e"
  shows "case spiral_loop e cx cy R (0, 0, 0, st) of (r', a', k', st') \<Rightarrow>
           k' \<le> MAX_LOOP_ITERATIONS \<and>
           (k' < MAX_LOOP_ITERATIONS \<longrightarrow> R \<le> r') \<and>
           r' ^ 2 \<le> real k' * (spiral_c e + spiral_c e ^ 2) \<and>
           ((R ^ 2 + R) / spiral_c e + 1 \<le> real MAX_LOOP_ITERATIONS \<longrightarrow>
              k' < MAX_LOOP_ITERATIONS \<and> R \<le> r') \<and>
           (0 < R \<and> real MAX_LOOP_ITERATIONS * (spiral_c e + spiral_c e ^ 2) < R ^ 2 \<longrightarrow>
              k' = MAX_LOOP_ITERATIONS \<and> r' < R)"
  using assms by (rule spiral_loop_bounds)

theorem spiral_loop_termination_witness:
  "fst (snd (snd (spiral_branch (demo_env\<lparr>pathType := ''spiral''\<rparr>) demo_state))) < MAX_LOOP_ITERATIONS \<and>
   printDim (demo_env\<lparr>pathType := ''spiral''\<rparr>) / 2
     \<le> fst (spiral_branch (demo_env\<lparr>pathType := ''spiral''\<rparr>) demo_state) \<and>
   \<not> spiral_warns (spiral_branch (demo_env\<lparr>pathType := ''spiral''\<rparr>) demo_state)"
proof -
  let ?e = "demo_env\<lparr>pathType := ''spiral''\<rparr>"
  have sp: "0 < spacing ?e" by (simp add: demo_env_def)
  have c: "spiral_c ?e = 3 / (10 * pi)"
    by (simp add: spiral_c_def TWO_PI_def demo_env_def)
  have "(50 ^ 2 + 50) / spiral_c ?e = 8500 * pi" unfolding c by simp
  moreover have "8500 * pi + 1 \<le> 100000" using pi_less_4 by simp
  ultimately have h: "(50 ^ 2 + 50) / spiral_c ?e + 1 \<le> real MAX_LOOP_ITERATIONS"
    by (simp add: MAX_LOOP_ITERATIONS_def)
  have b: "spiral_branch ?e demo_state =
           spiral_loop ?e (offsetX ?e + printWidth ?e / 2) (offsetY ?e + printHeight ?e / 2) 50 (0, 0, 0, demo_state)"
    by (simp add: spiral_branch_def Let_def printDim_def demo_env_def)
  have pd: "printDim ?e / 2 = 50" by (simp add: printDim_def demo_env_def)
  from spiral_loop_termination [OF sp, where R = 50 and st = demo_state
        and cx = "offsetX ?e + printWidth ?e / 2" and cy = "offsetY ?e + printHeight ?e / 2"] h
  show ?thesis
    unfolding b [symmetric] pd
    by (auto simp: spiral_warns_def split: prod.splits)
qed

end
